theory Spec2Isabelle
  imports Complex_Main "HOL-Library.AList" "HOL-Library.Sublist"
begin

section \<open>Diagnostics and their conversion (types/index.ts)\<close>

text \<open>
  The simplified diagnostic handed to clients, and the part of the compiler's own
  diagnostic that \<open>convertDiagnostic\<close> reads. A compiler diagnostic may carry a source
  file; the source file knows its name and maps a byte offset to a 0-based line and
  character. The compiler's message text is carried already flattened
  (\<open>ts.flattenDiagnosticMessageText\<close> belongs to the compiler).
\<close>

datatype DiagnosticCategory = Error | Warning | Suggestion | Message

record Diagnostic =
  fileD :: string
  line :: nat
  column :: nat
  category :: DiagnosticCategory
  code :: int
  message :: string
  messageText :: string
  startD :: "nat option"
  lengthD :: "nat option"

record LineAndCharacter =
  lc_line :: nat
  lc_character :: nat

record SourceFile =
  fileName :: string
  getLineAndCharacterOfPosition :: "nat \<Rightarrow> LineAndCharacter"

record ts_Diagnostic =
  ts_file :: "SourceFile option"
  ts_start :: "nat option"
  ts_length :: "nat option"
  ts_category :: nat
  ts_code :: int
  ts_messageText :: string

fun convertDiagnosticCategory :: "nat \<Rightarrow> DiagnosticCategory" where
  "convertDiagnosticCategory c =
     (if c = 0 then Error
      else if c = 1 then Warning
      else if c = 2 then Suggestion
      else if c = 3 then Message
      else Error)"

text \<open>
  \<open>a || b\<close> on a string takes \<open>b\<close> when \<open>a\<close> is undefined or empty; on a number when it
  is undefined or zero. \<open>p ? p + 1 : 0\<close> on a number tests the same truthiness.
\<close>

definition convertDiagnostic :: "ts_Diagnostic \<Rightarrow> Diagnostic" where
  "convertDiagnostic diagnostic =
     (let file' = (case ts_file diagnostic of
                     None \<Rightarrow> ''unknown''
                   | Some f \<Rightarrow> if fileName f = [] then ''unknown'' else fileName f);
          position = (case ts_file diagnostic of
                        None \<Rightarrow> None
                      | Some f \<Rightarrow> Some (getLineAndCharacterOfPosition f
                                  (case ts_start diagnostic of None \<Rightarrow> 0 | Some n \<Rightarrow> n)))
      in \<lparr> fileD = file',
           line = (case position of
                     None \<Rightarrow> 0
                   | Some p \<Rightarrow> if lc_line p \<noteq> 0 then lc_line p + 1 else 0),
           column = (case position of
                       None \<Rightarrow> 0
                     | Some p \<Rightarrow> if lc_character p \<noteq> 0 then lc_character p + 1 else 0),
           category = convertDiagnosticCategory (ts_category diagnostic),
           code = ts_code diagnostic,
           message = ts_messageText diagnostic,
           messageText = ts_messageText diagnostic,
           startD = ts_start diagnostic,
           lengthD = ts_length diagnostic \<rparr>)"

section \<open>Ignore patterns (utils/ignore)\<close>

text \<open>
  \<open>globToRegex\<close> rewrites the glob text in five passes and hands the result to the
  regular-expression constructor. Each pass is a global replace; the first four match
  fixed texts, so they are literal replacements scanned from the left.
\<close>

abbreviation backslash :: char where
  "backslash \<equiv> CHR 0x5C"

definition regexSpecial :: "char \<Rightarrow> bool" where
  "regexSpecial c = (c \<in> set ''.+^${}()|[]'' \<or> c = backslash)"

fun escapeSpecial :: "string \<Rightarrow> string" where
  "escapeSpecial [] = []"
| "escapeSpecial (c # cs) =
     (if regexSpecial c then backslash # c # escapeSpecial cs else c # escapeSpecial cs)"

fun replaceAll :: "string \<Rightarrow> string \<Rightarrow> string \<Rightarrow> string" where
  "replaceAll p r [] = []"
| "replaceAll p r (c # cs) =
     (if p \<noteq> [] \<and> prefix p (c # cs)
      then r @ replaceAll p r (drop (length p - 1) cs)
      else c # replaceAll p r cs)"

text \<open>
  The alternatives pass matches an opening brace, one or more characters other than a
  closing brace, and a closing brace; the callback turns the commas of the body into bars
  and wraps it in parentheses. Where no such match starts, the character is kept.
\<close>

function braceAlternatives :: "string \<Rightarrow> string" where
  "braceAlternatives [] = []"
| "braceAlternatives (c # cs) =
     (if c = CHR ''{'' \<and> takeWhile (\<lambda>x. x \<noteq> CHR ''}'') cs \<noteq> []
           \<and> dropWhile (\<lambda>x. x \<noteq> CHR ''}'') cs \<noteq> []
      then ''('' @ map (\<lambda>x. if x = CHR '','' then CHR ''|'' else x)
                       (takeWhile (\<lambda>x. x \<noteq> CHR ''}'') cs)
           @ '')'' @ braceAlternatives (tl (dropWhile (\<lambda>x. x \<noteq> CHR ''}'') cs))
      else c # braceAlternatives cs)"
  by pat_completeness auto
termination
proof (relation "measure length")
  fix c :: char and cs :: string
  have "length (tl (dropWhile (\<lambda>x. x \<noteq> CHR ''}'') cs)) \<le> length cs"
    using length_dropWhile_le [of "\<lambda>x. x \<noteq> CHR ''}''" cs] by simp
  then show "(tl (dropWhile (\<lambda>x. x \<noteq> CHR ''}'') cs), c # cs) \<in> measure length"
    by simp
qed simp_all

definition globToRegexSource :: "string \<Rightarrow> string" where
  "globToRegexSource glob =
     (let regex = escapeSpecial glob;
          regex = replaceAll [backslash, CHR ''*'', backslash, CHR ''*''] ''.*'' regex;
          regex = replaceAll [backslash, CHR ''*''] ''[^/]*'' regex;
          regex = replaceAll ''?'' ''[^/]'' regex;
          regex = braceAlternatives regex
      in ''^'' @ regex @ ''$'')"

text \<open>
  The regular-expression engine is the language's: \<open>RegExp\<close> takes the pattern text and
  either rejects it (a SyntaxError, raised by the constructor) or yields a matcher, whose
  \<open>test\<close> answers for a subject string.
\<close>

datatype js_error = SyntaxError | TypeError

type_synonym RegExp = "string \<Rightarrow> js_error + (string \<Rightarrow> bool)"

definition matchesPattern :: "RegExp \<Rightarrow> string \<Rightarrow> string \<Rightarrow> js_error + bool" where
  "matchesPattern rx path pattern =
     (case rx (globToRegexSource pattern) of
        Inl e \<Rightarrow> Inl e
      | Inr test \<Rightarrow> Inr (test path))"

fun anyPattern :: "RegExp \<Rightarrow> string \<Rightarrow> string list \<Rightarrow> js_error + bool" where
  "anyPattern rx path [] = Inr False"
| "anyPattern rx path (pattern # patterns) =
     (case matchesPattern rx path pattern of
        Inl e \<Rightarrow> Inl e
      | Inr True \<Rightarrow> Inr True
      | Inr False \<Rightarrow> anyPattern rx path patterns)"

definition shouldIgnoreFile :: "RegExp \<Rightarrow> string \<Rightarrow> string list \<Rightarrow> js_error + bool" where
  "shouldIgnoreFile rx filePath ignorePatterns =
     (if ignorePatterns = [] then Inr False
      else anyPattern rx (map (\<lambda>c. if c = backslash then CHR ''/'' else c) filePath)
             ignorePatterns)"

definition DEFAULT_IGNORE_PATTERNS :: "string list" where
  "DEFAULT_IGNORE_PATTERNS =
     [''**/node_modules/**'', ''**/dist/**'', ''**/build/**'', ''**/.git/**'',
      ''**/coverage/**'', ''**/.next/**'', ''**/.turbo/**'', ''**/.cache/**'',
      ''**/out/**'', ''**/*.min.js'', ''**/*.bundle.js'', ''**/.tsbuildinfo'']"

section \<open>Diagnostic cache (utils/cache.ts)\<close>

text \<open>
  The cache wraps the library's LRU map, built with the item bound \<open>maxItems\<close>, a time
  to live of one hour and \<open>updateAgeOnGet\<close>. The model keeps the map as an association
  list in order of use, the least recently used entry first, with the three counters
  beside it. What the library does inside \<open>get\<close>, \<open>set\<close>, \<open>delete\<close> and \<open>clear\<close> is
  part of the model of these methods:
  \<^item> a \<open>get\<close> that finds the key makes its entry the most recently used;
  \<^item> a \<open>set\<close> over an existing key replaces the entry and makes it the most recently
    used; a \<open>set\<close> of a new key, when the number of entries has reached the bound,
    first drops the least recently used entry; a bound of 0 is no bound;
  \<^item> whenever the library lets go of a value (such a drop, a delete, a clear, or a
    \<open>set\<close> over an existing key, whose entry object is always a new one) it runs the
    \<open>dispose\<close> callback, which counts an eviction.
  An entry that has outlived its time to live is dropped when it is next looked at; when
  that happens depends on the clock, so it is the step \<open>evict\<close> of the environment,
  possible at any moment and for any key. The counters are natural numbers and the hit
  rate is their quotient in the reals; the source holds them as doubles.
\<close>

record CacheEntry =
  ce_diagnostics :: "Diagnostic list"
  ce_timestamp :: nat
  ce_fileHash :: "string option"

record DiagnosticCache =
  entries :: "(string \<times> CacheEntry) list"
  maxItems :: nat
  stats_hits :: nat
  stats_misses :: nat
  stats_evictions :: nat

record CacheStats =
  sizeC :: nat
  hits :: nat
  misses :: nat
  evictions :: nat
  hitRate :: real
  itemCount :: nat

definition newDiagnosticCache :: "nat \<Rightarrow> DiagnosticCache" where
  "newDiagnosticCache maxSizeMB =
     \<lparr> entries = [], maxItems = (maxSizeMB * 1024 * 1024) div 200,
       stats_hits = 0, stats_misses = 0, stats_evictions = 0 \<rparr>"

definition dispose :: "DiagnosticCache \<Rightarrow> DiagnosticCache" where
  "dispose c = c\<lparr> stats_evictions := stats_evictions c + 1 \<rparr>"

definition touch :: "string \<Rightarrow> CacheEntry \<Rightarrow> (string \<times> CacheEntry) list \<Rightarrow> (string \<times> CacheEntry) list" where
  "touch key entry es = AList.delete key es @ [(key, entry)]"

definition evictOldest :: "DiagnosticCache \<Rightarrow> DiagnosticCache" where
  "evictOldest c =
     (case entries c of
        [] \<Rightarrow> c
      | (k, e) # rest \<Rightarrow> (dispose c)\<lparr> entries := AList.delete k (entries c) \<rparr>)"

definition cache_get :: "string \<Rightarrow> DiagnosticCache \<Rightarrow> Diagnostic list option \<times> DiagnosticCache" where
  "cache_get key c =
     (case map_of (entries c) key of
        Some entry \<Rightarrow>
          (Some (ce_diagnostics entry),
           c\<lparr> entries := touch key entry (entries c), stats_hits := stats_hits c + 1 \<rparr>)
      | None \<Rightarrow> (None, c\<lparr> stats_misses := stats_misses c + 1 \<rparr>))"

definition cache_set ::
  "string \<Rightarrow> Diagnostic list \<Rightarrow> nat \<Rightarrow> string option \<Rightarrow> DiagnosticCache \<Rightarrow> DiagnosticCache" where
  "cache_set key ds now fh c =
     (let c' = (case map_of (entries c) key of
                  Some old \<Rightarrow> dispose c
                | None \<Rightarrow> if length (entries c) = maxItems c then evictOldest c else c)
      in c'\<lparr> entries := touch key
                 \<lparr> ce_diagnostics = ds, ce_timestamp = now, ce_fileHash = fh \<rparr> (entries c') \<rparr>)"

definition cache_has :: "string \<Rightarrow> DiagnosticCache \<Rightarrow> bool" where
  "cache_has key c = (map_of (entries c) key \<noteq> None)"

definition cache_delete :: "string \<Rightarrow> DiagnosticCache \<Rightarrow> DiagnosticCache" where
  "cache_delete key c =
     (let c' = (case map_of (entries c) key of None \<Rightarrow> c | Some old \<Rightarrow> dispose c)
      in c'\<lparr> entries := AList.delete key (entries c') \<rparr>)"

definition cache_clear :: "DiagnosticCache \<Rightarrow> DiagnosticCache" where
  "cache_clear c = (fold (\<lambda>e. dispose) (entries c) c)\<lparr> entries := [] \<rparr>"

definition evict :: "string \<Rightarrow> DiagnosticCache \<Rightarrow> DiagnosticCache" where
  "evict key c = cache_delete key c"

definition getStats :: "DiagnosticCache \<Rightarrow> CacheStats" where
  "getStats c =
     (let totalRequests = stats_hits c + stats_misses c
      in \<lparr> sizeC = length (entries c),
           hits = stats_hits c,
           misses = stats_misses c,
           evictions = stats_evictions c,
           hitRate = (if totalRequests > 0 then real (stats_hits c) / real totalRequests else 0),
           itemCount = length (entries c) \<rparr>)"

definition resetStats :: "DiagnosticCache \<Rightarrow> DiagnosticCache" where
  "resetStats c = c\<lparr> stats_hits := 0, stats_misses := 0, stats_evictions := 0 \<rparr>"

section \<open>Watch manager (core/watch-manager.ts)\<close>

record TSProjectConfig =
  configPath :: string
  name :: "string option"
  rootDir :: "string option"

record DiagnosticResult =
  timestamp :: nat
  totalErrors :: nat
  totalWarnings :: nat
  totalSuggestions :: nat
  totalMessages :: nat
  diagnostics :: "Diagnostic list"
  cacheHit :: bool
  source :: string

datatype WatchMode = single | monorepo

record WatchStatus =
  active :: bool
  watchedConfigs :: "string list"
  watchedFiles :: nat
  ws_lastCompilation :: "nat option"
  projectRoot :: string
  mode :: WatchMode

text \<open>What the manager emits to its listeners, in order.\<close>

datatype emitted =
    started nat
  | diagnostic_event "string option" string Diagnostic
  | compilation_complete "string option" nat nat nat
  | cleared string
  | stopped
  | recompile_requested

text \<open>
  A compiler session is opaque: it reports diagnostics and status messages for its
  project through the two callbacks, and can be closed. A session is named by the number
  it was opened under. Each report carries the clock reading at its arrival.
\<close>

datatype session_event =
    ReportDiagnostic ts_Diagnostic nat
  | ReportWatchStatus string nat

record TypeScriptWatchManager =
  watchers :: "(string \<times> nat) list"
  diagnosticsByConfig :: "(string \<times> (string \<times> Diagnostic list) list) list"
  cache :: DiagnosticCache
  isActive :: bool
  lastCompilation :: "nat option"
  configs :: "TSProjectConfig list"
  emittedEvents :: "emitted list"
  nextWatcher :: nat
  closedWatchers :: "nat list"

definition newTypeScriptWatchManager :: "TSProjectConfig list \<Rightarrow> nat \<Rightarrow> TypeScriptWatchManager" where
  "newTypeScriptWatchManager cfgs cacheSizeMB =
     \<lparr> watchers = [], diagnosticsByConfig = [], cache = newDiagnosticCache cacheSizeMB,
       isActive = False, lastCompilation = None, configs = cfgs,
       emittedEvents = [], nextWatcher = 0, closedWatchers = [] \<rparr>"

definition emit :: "emitted \<Rightarrow> TypeScriptWatchManager \<Rightarrow> TypeScriptWatchManager" where
  "emit e s = s\<lparr> emittedEvents := emittedEvents s @ [e] \<rparr>"

definition cacheKey :: "string \<Rightarrow> string \<Rightarrow> string" where
  "cacheKey cp fileName' = cp @ '':'' @ fileName'"

definition countCategory :: "DiagnosticCategory \<Rightarrow> Diagnostic list \<Rightarrow> nat" where
  "countCategory k ds = length (filter (\<lambda>d. category d = k) ds)"

definition buildDiagnosticResult :: "Diagnostic list \<Rightarrow> string \<Rightarrow> bool \<Rightarrow> nat \<Rightarrow> DiagnosticResult" where
  "buildDiagnosticResult ds src hit now =
     \<lparr> timestamp = now,
       totalErrors = countCategory Error ds,
       totalWarnings = countCategory Warning ds,
       totalSuggestions = countCategory Suggestion ds,
       totalMessages = countCategory Message ds,
       diagnostics = ds,
       cacheHit = hit,
       source = src \<rparr>"

definition getAllDiagnosticsForConfig :: "string \<Rightarrow> TypeScriptWatchManager \<Rightarrow> Diagnostic list" where
  "getAllDiagnosticsForConfig cp s =
     (case map_of (diagnosticsByConfig s) cp of
        None \<Rightarrow> []
      | Some diagnosticMap \<Rightarrow> concat (map snd diagnosticMap))"

text \<open>
  \<open>onDiagnostic\<close>: without a diagnostic map for the project the report is dropped.
  Otherwise the file's list is created when missing, the converted diagnostic is pushed
  onto it, and the list is written to the cache under the project's key for the file.

  In the source the cache entry refers to the very array the store holds. An array is
  changed only here, by the push, and the same call then hands that array to the cache
  under the only key it is ever cached under; so an array that a cache entry refers to
  never differs from the value last written there, and the model keeps lists by value.
\<close>

definition onDiagnostic ::
  "TSProjectConfig \<Rightarrow> ts_Diagnostic \<Rightarrow> nat \<Rightarrow> TypeScriptWatchManager \<Rightarrow> TypeScriptWatchManager" where
  "onDiagnostic config d now s =
     (let converted = convertDiagnostic d
      in case map_of (diagnosticsByConfig s) (configPath config) of
           None \<Rightarrow> s
         | Some diagnosticMap \<Rightarrow>
             (let fileName' = fileD converted;
                  diagnosticMap1 = (if map_of diagnosticMap fileName' = None
                                    then AList.update fileName' [] diagnosticMap
                                    else diagnosticMap);
                  fileDiagnostics = (case map_of diagnosticMap1 fileName' of
                                       None \<Rightarrow> [] | Some b \<Rightarrow> b) @ [converted];
                  diagnosticMap2 = AList.update fileName' fileDiagnostics diagnosticMap1;
                  s1 = s\<lparr> diagnosticsByConfig :=
                            AList.update (configPath config) diagnosticMap2 (diagnosticsByConfig s) \<rparr>;
                  s2 = s1\<lparr> cache := cache_set (cacheKey (configPath config) fileName')
                                        fileDiagnostics now None (cache s1) \<rparr>
              in emit (diagnostic_event (name config) fileName' converted) s2))"

fun includesStr :: "string \<Rightarrow> string \<Rightarrow> bool" where
  "includesStr [] p = (p = [])"
| "includesStr (c # cs) p = (prefix p (c # cs) \<or> includesStr cs p)"

definition onWatchStatusChange ::
  "TSProjectConfig \<Rightarrow> string \<Rightarrow> nat \<Rightarrow> TypeScriptWatchManager \<Rightarrow> TypeScriptWatchManager" where
  "onWatchStatusChange config messageText' now s =
     (if includesStr messageText' ''Found 0 errors'' \<or> includesStr messageText' ''Watching for file changes''
      then (let s1 = s\<lparr> lastCompilation := Some now \<rparr>;
                ds = getAllDiagnosticsForConfig (configPath config) s1
            in emit (compilation_complete (name config) now
                       (countCategory Error ds) (countCategory Warning ds)) s1)
      else s)"

fun deliver :: "TSProjectConfig \<Rightarrow> session_event \<Rightarrow> TypeScriptWatchManager \<Rightarrow> TypeScriptWatchManager" where
  "deliver config (ReportDiagnostic d now) s = onDiagnostic config d now s"
| "deliver config (ReportWatchStatus m now) s = onWatchStatusChange config m now s"

text \<open>
  Opening a session (\<open>ts.createWatchProgram\<close>) runs the first build at once, so the
  session's first reports reach the callbacks before the watcher is stored and before
  the project's diagnostic map is initialised. The host gives, for a project, whether
  its configuration file exists and what the first build reports.
\<close>

record host =
  existsSync :: "string \<Rightarrow> bool"
  initialBuild :: "TSProjectConfig \<Rightarrow> session_event list"

definition startWatchingConfig ::
  "host \<Rightarrow> TSProjectConfig \<Rightarrow> TypeScriptWatchManager \<Rightarrow> TypeScriptWatchManager" where
  "startWatchingConfig h config s =
     (if \<not> existsSync h (configPath config) then s
      else (let s1 = fold (deliver config) (initialBuild h config) s;
                watcher = nextWatcher s1;
                s2 = s1\<lparr> nextWatcher := watcher + 1,
                         watchers := AList.update (configPath config) watcher (watchers s1) \<rparr>
            in s2\<lparr> diagnosticsByConfig :=
                      AList.update (configPath config) [] (diagnosticsByConfig s2) \<rparr>))"

definition start :: "host \<Rightarrow> TypeScriptWatchManager \<Rightarrow> TypeScriptWatchManager" where
  "start h s =
     (if isActive s then s
      else (let s1 = s\<lparr> isActive := True \<rparr>;
                s2 = fold (startWatchingConfig h) (configs s1) s1
            in emit (started (length (configs s2))) s2))"

definition getAllDiagnostics :: "nat \<Rightarrow> TypeScriptWatchManager \<Rightarrow> DiagnosticResult" where
  "getAllDiagnostics now s =
     buildDiagnosticResult
       (concat (map (\<lambda>(cp, m). getAllDiagnosticsForConfig cp s) (diagnosticsByConfig s)))
       ''all'' True now"

text \<open>
  \<open>getFileDiagnostics\<close> asks the cache once per configured project, in order; every
  lookup counts as a hit or a miss.
\<close>

fun lookupCached ::
  "string \<Rightarrow> TSProjectConfig list \<Rightarrow> Diagnostic list \<Rightarrow> DiagnosticCache
     \<Rightarrow> Diagnostic list \<times> DiagnosticCache" where
  "lookupCached filePath [] ds c = (ds, c)"
| "lookupCached filePath (config # rest) ds c =
     (case cache_get (cacheKey (configPath config) filePath) c of
        (Some cached, c') \<Rightarrow> lookupCached filePath rest (ds @ cached) c'
      | (None, c') \<Rightarrow> lookupCached filePath rest ds c')"

definition getFileDiagnostics ::
  "string \<Rightarrow> nat \<Rightarrow> TypeScriptWatchManager \<Rightarrow> DiagnosticResult \<times> TypeScriptWatchManager" where
  "getFileDiagnostics filePath now s =
     (let (ds, c') = lookupCached filePath (configs s) [] (cache s)
      in (buildDiagnosticResult ds filePath (length ds > 0) now, s\<lparr> cache := c' \<rparr>))"

definition getPackageDiagnostics ::
  "string \<Rightarrow> nat \<Rightarrow> TypeScriptWatchManager \<Rightarrow> DiagnosticResult option" where
  "getPackageDiagnostics packageName now s =
     (case find (\<lambda>c. name c = Some packageName) (configs s) of
        None \<Rightarrow> None
      | Some config \<Rightarrow>
          Some (buildDiagnosticResult (getAllDiagnosticsForConfig (configPath config) s)
                  packageName True now))"

definition hasErrors ::
  "string option \<Rightarrow> nat \<Rightarrow> TypeScriptWatchManager \<Rightarrow> bool \<times> TypeScriptWatchManager" where
  "hasErrors filePath now s =
     (case filePath of
        Some p \<Rightarrow> (if p \<noteq> [] then (let (r, s') = getFileDiagnostics p now s in (totalErrors r > 0, s'))
                   else (totalErrors (getAllDiagnostics now s) > 0, s))
      | None \<Rightarrow> (totalErrors (getAllDiagnostics now s) > 0, s))"

definition getTotalFilesWatched :: "TypeScriptWatchManager \<Rightarrow> nat" where
  "getTotalFilesWatched s = sum_list (map (\<lambda>(cp, m). length m) (diagnosticsByConfig s))"

definition getStatus :: "TypeScriptWatchManager \<Rightarrow> WatchStatus" where
  "getStatus s =
     \<lparr> active = isActive s,
       watchedConfigs = map configPath (configs s),
       watchedFiles = getTotalFilesWatched s,
       ws_lastCompilation = lastCompilation s,
       projectRoot = (case configs s of
                        [] \<Rightarrow> []
                      | c # cs \<Rightarrow> (case rootDir c of None \<Rightarrow> [] | Some r \<Rightarrow> r)),
       mode = (if length (configs s) > 1 then monorepo else single) \<rparr>"

definition clearFileDiagnostics :: "string \<Rightarrow> TypeScriptWatchManager \<Rightarrow> TypeScriptWatchManager" where
  "clearFileDiagnostics filePath s =
     emit (cleared filePath)
       (s\<lparr> diagnosticsByConfig :=
              map (\<lambda>(cp, m). (cp, AList.delete filePath m)) (diagnosticsByConfig s),
            cache := fold (\<lambda>(cp, m). cache_delete (cacheKey cp filePath))
                       (diagnosticsByConfig s) (cache s) \<rparr>)"

definition clearAllDiagnostics :: "TypeScriptWatchManager \<Rightarrow> TypeScriptWatchManager" where
  "clearAllDiagnostics s =
     emit (cleared ''all'')
       (s\<lparr> diagnosticsByConfig := map (\<lambda>(cp, m). (cp, [])) (diagnosticsByConfig s),
            cache := cache_clear (cache s) \<rparr>)"

definition stop :: "TypeScriptWatchManager \<Rightarrow> TypeScriptWatchManager" where
  "stop s =
     (if \<not> isActive s then s
      else emit stopped
             (s\<lparr> closedWatchers := closedWatchers s @ map snd (watchers s),
                  watchers := [],
                  isActive := False \<rparr>))"

definition getCacheStats :: "TypeScriptWatchManager \<Rightarrow> CacheStats" where
  "getCacheStats s = getStats (cache s)"

definition triggerRecompile :: "TypeScriptWatchManager \<Rightarrow> TypeScriptWatchManager" where
  "triggerRecompile s = emit recompile_requested s"

text \<open>
  The manager's life as a sequence of operations: the calls that change its state, the
  reports of the compiler sessions, and the cache library dropping an entry. The queries
  that only read (\<open>getAllDiagnostics\<close>, \<open>getPackageDiagnostics\<close>, \<open>getStatus\<close>,
  \<open>getCacheStats\<close>) leave the state as it is and are not steps.
\<close>

datatype operation =
    Start host
  | Report TSProjectConfig session_event
  | GetFileDiagnostics string nat
  | HasErrors "string option" nat
  | ClearFileDiagnostics string
  | ClearAllDiagnostics
  | Stop
  | TriggerRecompile
  | Evict string

fun step :: "operation \<Rightarrow> TypeScriptWatchManager \<Rightarrow> TypeScriptWatchManager" where
  "step (Start h) s = start h s"
| "step (Report config ev) s = deliver config ev s"
| "step (GetFileDiagnostics p now) s = snd (getFileDiagnostics p now s)"
| "step (HasErrors p now) s = snd (hasErrors p now s)"
| "step (ClearFileDiagnostics p) s = clearFileDiagnostics p s"
| "step ClearAllDiagnostics s = clearAllDiagnostics s"
| "step Stop s = stop s"
| "step TriggerRecompile s = triggerRecompile s"
| "step (Evict key) s = s\<lparr> cache := evict key (cache s) \<rparr>"

definition run :: "operation list \<Rightarrow> TypeScriptWatchManager \<Rightarrow> TypeScriptWatchManager" where
  "run ops s = fold step ops s"

section \<open>Workspace detection (utils/workspace.ts)\<close>

text \<open>
  A parsed manifest is a JSON value; an object carries its members as parsed. Reading a
  member of \<open>null\<close> raises a TypeError, reading one of any other value that is not an
  object gives \<open>undefined\<close> (here \<open>None\<close>).
\<close>

datatype json =
    JNull
  | JBool bool
  | JNum int
  | JStr string
  | JArr "json list"
  | JObj "(string \<times> json) list"









section \<open>Notions used to state the properties\<close>

text \<open>
  The bucket the store holds for a file of a project, and the list the cache holds under
  the project's key for the file.
\<close>

definition bucketOf :: "string \<Rightarrow> string \<Rightarrow> TypeScriptWatchManager \<Rightarrow> Diagnostic list option" where
  "bucketOf cp f s =
     (case map_of (diagnosticsByConfig s) cp of None \<Rightarrow> None | Some m \<Rightarrow> map_of m f)"

definition cachedFor :: "string \<Rightarrow> string \<Rightarrow> TypeScriptWatchManager \<Rightarrow> Diagnostic list option" where
  "cachedFor cp f s = map_option ce_diagnostics (map_of (entries (cache s)) (cacheKey cp f))"

text \<open>The diagnostics that a run of session reports holds for one file, converted, in order.\<close>

fun reportedFor :: "string \<Rightarrow> session_event list \<Rightarrow> Diagnostic list" where
  "reportedFor f [] = []"
| "reportedFor f (ReportDiagnostic d now # evs) =
     (if fileD (convertDiagnostic d) = f
      then convertDiagnostic d # reportedFor f evs else reportedFor f evs)"
| "reportedFor f (ReportWatchStatus m now # evs) = reportedFor f evs"

text \<open>
  The files named by the diagnostics that an operation can deliver: those of a report,
  and those of the first builds that a start may run for the configured projects.
\<close>

fun reportedFiles :: "session_event list \<Rightarrow> string list" where
  "reportedFiles [] = []"
| "reportedFiles (ReportDiagnostic d now # evs) = fileD (convertDiagnostic d) # reportedFiles evs"
| "reportedFiles (ReportWatchStatus m now # evs) = reportedFiles evs"

fun filesOfOperation :: "TSProjectConfig list \<Rightarrow> operation \<Rightarrow> string list" where
  "filesOfOperation cfgs (Start h) = concat (map (\<lambda>c. reportedFiles (initialBuild h c)) cfgs)"
| "filesOfOperation cfgs (Report config ev) = reportedFiles [ev]"
| "filesOfOperation cfgs other = []"

definition everReported :: "TSProjectConfig list \<Rightarrow> operation list \<Rightarrow> string list" where
  "everReported cfgs ops = concat (map (filesOfOperation cfgs) ops)"

text \<open>
  The cache key of a project and a file is the project's configuration path, a colon and
  the file name. Two configured projects can produce the same key for different files
  only if the path of one, followed by a colon, begins the path of the other.
\<close>

definition keysUnambiguous :: "TSProjectConfig list \<Rightarrow> bool" where
  "keysUnambiguous cfgs =
     (\<forall>c \<in> set cfgs. \<forall>c' \<in> set cfgs. \<not> prefix (configPath c @ '':'') (configPath c'))"

text \<open>
  Invariants of the manager, used in the proofs.
  \<^item> \<open>sessionsInv\<close>: an inactive manager holds no session.
  \<^item> \<open>storeInv\<close>: the store's projects are distinct, each project's files are
    distinct, and every project of the store is a configured one.
  \<^item> \<open>allEmpty\<close>: every project's map is empty.
  \<^item> \<open>agreeInv\<close>: a list cached under the key of a stored bucket is that bucket.
  \<^item> \<open>cacheKeysInv\<close>: every cache key is the key of a configured project and of a
    file out of a given set.
  \<^item> \<open>emptyOrPending\<close>: every project's map is empty, or the project is still to be
    started and its configuration file is there.
  \<^item> \<open>openedInv\<close>: every session opened so far has been closed or is in the session
    table.
\<close>

definition sessionsInv :: "TypeScriptWatchManager \<Rightarrow> bool" where
  "sessionsInv s = (\<not> isActive s \<longrightarrow> watchers s = [])"

definition storeInv :: "TypeScriptWatchManager \<Rightarrow> bool" where
  "storeInv s =
     (distinct (map fst (diagnosticsByConfig s))
      \<and> (\<forall>cp m. map_of (diagnosticsByConfig s) cp = Some m \<longrightarrow>
             distinct (map fst m) \<and> cp \<in> configPath ` set (configs s)))"

definition allEmpty :: "TypeScriptWatchManager \<Rightarrow> bool" where
  "allEmpty s =
     (distinct (map fst (diagnosticsByConfig s))
      \<and> (\<forall>cp m. map_of (diagnosticsByConfig s) cp = Some m \<longrightarrow> m = []))"

definition agreeInv :: "TypeScriptWatchManager \<Rightarrow> bool" where
  "agreeInv s =
     (\<forall>cp f b e. bucketOf cp f s = Some b
        \<and> map_of (entries (cache s)) (cacheKey cp f) = Some e \<longrightarrow> ce_diagnostics e = b)"

definition cacheKeysInv :: "string set \<Rightarrow> TypeScriptWatchManager \<Rightarrow> bool" where
  "cacheKeysInv F s =
     (\<forall>k e. map_of (entries (cache s)) k = Some e \<longrightarrow>
        (\<exists>cp f. k = cacheKey cp f \<and> cp \<in> configPath ` set (configs s) \<and> f \<in> F))"

definition emptyOrPending :: "host \<Rightarrow> TSProjectConfig list \<Rightarrow> TypeScriptWatchManager \<Rightarrow> bool" where
  "emptyOrPending h cs s =
     (distinct (map fst (diagnosticsByConfig s))
      \<and> (\<forall>cp m. map_of (diagnosticsByConfig s) cp = Some m \<longrightarrow>
             m = [] \<or> (\<exists>c \<in> set cs. configPath c = cp \<and> existsSync h cp)))"

definition openedInv :: "TypeScriptWatchManager \<Rightarrow> bool" where
  "openedInv s =
     (set [0..<nextWatcher s] = set (closedWatchers s) \<union> snd ` set (watchers s))"

section \<open>Lemmas about the operations\<close>

subsection \<open>Field projections\<close>

lemma emit_fields [simp]:
  "diagnosticsByConfig (emit e s) = diagnosticsByConfig s"
  "cache (emit e s) = cache s"
  "watchers (emit e s) = watchers s"
  "isActive (emit e s) = isActive s"
  "configs (emit e s) = configs s"
  "lastCompilation (emit e s) = lastCompilation s"
  "nextWatcher (emit e s) = nextWatcher s"
  "closedWatchers (emit e s) = closedWatchers s"
  by (simp_all add: emit_def)

lemma map_of_touch: "map_of (touch k e es) = (map_of es)(k \<mapsto> e)"
proof
  fix k'
  show "map_of (touch k e es) k' = ((map_of es)(k \<mapsto> e)) k'"
    by (cases "k' = k") (simp_all add: touch_def map_add_def delete_conv' split: option.splits)
qed

lemma map_of_evictOldest:
  "map_of (entries (evictOldest c)) k = Some e \<Longrightarrow> map_of (entries c) k = Some e"
  by (auto simp: evictOldest_def dispose_def delete_conv' split: list.splits if_splits)

lemma cache_set_written:
  "map_of (entries (cache_set k ds now fh c)) k =
     Some \<lparr> ce_diagnostics = ds, ce_timestamp = now, ce_fileHash = fh \<rparr>"
  by (simp add: cache_set_def Let_def map_of_touch)

lemma cache_set_others:
  assumes "k' \<noteq> k" and "map_of (entries (cache_set k ds now fh c)) k' = Some e"
  shows "map_of (entries c) k' = Some e"
proof (cases "map_of (entries c) k")
  case (Some old)
  then show ?thesis
    using assms by (simp add: cache_set_def Let_def map_of_touch dispose_def)
next
  case None
  show ?thesis
  proof (cases "length (entries c) = maxItems c")
    case True
    then have "map_of (entries (evictOldest c)) k' = Some e"
      using assms None by (simp add: cache_set_def Let_def map_of_touch)
    then show ?thesis by (rule map_of_evictOldest)
  next
    case False
    then show ?thesis
      using assms None by (simp add: cache_set_def Let_def map_of_touch)
  qed
qed

lemma map_of_cache_delete [simp]:
  "map_of (entries (cache_delete k c)) = (map_of (entries c))(k := None)"
  by (simp add: cache_delete_def dispose_def delete_conv' split: option.splits)

lemma entries_cache_clear [simp]: "entries (cache_clear c) = []"
  by (simp add: cache_clear_def)

lemma cache_get_entries:
  "cache_get k c = (r, c') \<Longrightarrow> map_of (entries c') = map_of (entries c)"
  by (auto simp: cache_get_def map_of_touch map_upd_triv split: option.splits)

lemma lookupCached_entries:
  "lookupCached p cs ds c = (r, c') \<Longrightarrow> map_of (entries c') = map_of (entries c)"
proof (induction cs arbitrary: ds c)
  case Nil
  then show ?case by simp
next
  case (Cons a cs)
  obtain x c1 where g: "cache_get (cacheKey (configPath a) p) c = (x, c1)"
    by (cases "cache_get (cacheKey (configPath a) p) c") auto
  have e1: "map_of (entries c1) = map_of (entries c)" using g by (rule cache_get_entries)
  show ?case
  proof (cases x)
    case None
    with Cons.prems g have "lookupCached p cs ds c1 = (r, c')" by simp
    then show ?thesis using Cons.IH e1 by simp
  next
    case (Some cached)
    with Cons.prems g have "lookupCached p cs (ds @ cached) c1 = (r, c')" by simp
    then show ?thesis using Cons.IH e1 by simp
  qed
qed

lemma getFileDiagnostics_state:
  "snd (getFileDiagnostics p now s) = s\<lparr> cache := snd (lookupCached p (configs s) [] (cache s)) \<rparr>"
  by (simp add: getFileDiagnostics_def split: prod.splits)

lemma getFileDiagnostics_entries [simp]:
  "map_of (entries (cache (snd (getFileDiagnostics p now s)))) = map_of (entries (cache s))"
  using lookupCached_entries [of p "configs s" "[]" "cache s"]
  by (cases "lookupCached p (configs s) [] (cache s)") (simp add: getFileDiagnostics_state)

lemma getFileDiagnostics_fields [simp]:
  "diagnosticsByConfig (snd (getFileDiagnostics p now s)) = diagnosticsByConfig s"
  "watchers (snd (getFileDiagnostics p now s)) = watchers s"
  "isActive (snd (getFileDiagnostics p now s)) = isActive s"
  "configs (snd (getFileDiagnostics p now s)) = configs s"
  "nextWatcher (snd (getFileDiagnostics p now s)) = nextWatcher s"
  "closedWatchers (snd (getFileDiagnostics p now s)) = closedWatchers s"
  by (simp_all add: getFileDiagnostics_state)

lemma hasErrors_state:
  "snd (hasErrors p now s) = s \<or> (\<exists>q. snd (hasErrors p now s) = snd (getFileDiagnostics q now s))"
  by (auto simp: hasErrors_def split: option.splits prod.splits) (metis snd_conv)

lemma hasErrors_fields [simp]:
  "diagnosticsByConfig (snd (hasErrors p now s)) = diagnosticsByConfig s"
  "map_of (entries (cache (snd (hasErrors p now s)))) = map_of (entries (cache s))"
  "watchers (snd (hasErrors p now s)) = watchers s"
  "isActive (snd (hasErrors p now s)) = isActive s"
  "configs (snd (hasErrors p now s)) = configs s"
  "nextWatcher (snd (hasErrors p now s)) = nextWatcher s"
  "closedWatchers (snd (hasErrors p now s)) = closedWatchers s"
  using hasErrors_state [of p now s] by auto

subsection \<open>Reports\<close>

lemma onDiagnostic_dropped:
  "map_of (diagnosticsByConfig s) (configPath c) = None \<Longrightarrow> onDiagnostic c d now s = s"
  by (simp add: onDiagnostic_def)

lemma onDiagnostic_store:
  "map_of (diagnosticsByConfig s) (configPath c) = Some m \<Longrightarrow>
   diagnosticsByConfig (onDiagnostic c d now s) =
     AList.update (configPath c)
       (AList.update (fileD (convertDiagnostic d))
          ((case map_of m (fileD (convertDiagnostic d)) of None \<Rightarrow> [] | Some b \<Rightarrow> b)
             @ [convertDiagnostic d]) m)
       (diagnosticsByConfig s)"
  by (auto simp: onDiagnostic_def Let_def update_conv' split: option.splits)

lemma onDiagnostic_cache:
  "map_of (diagnosticsByConfig s) (configPath c) = Some m \<Longrightarrow>
   cache (onDiagnostic c d now s) =
     cache_set (cacheKey (configPath c) (fileD (convertDiagnostic d)))
       ((case map_of m (fileD (convertDiagnostic d)) of None \<Rightarrow> [] | Some b \<Rightarrow> b)
          @ [convertDiagnostic d]) now None (cache s)"
  by (auto simp: onDiagnostic_def Let_def update_conv' split: option.splits)

lemma onDiagnostic_fields [simp]:
  "watchers (onDiagnostic c d now s) = watchers s"
  "isActive (onDiagnostic c d now s) = isActive s"
  "configs (onDiagnostic c d now s) = configs s"
  "nextWatcher (onDiagnostic c d now s) = nextWatcher s"
  "closedWatchers (onDiagnostic c d now s) = closedWatchers s"
  "lastCompilation (onDiagnostic c d now s) = lastCompilation s"
  by (simp_all add: onDiagnostic_def Let_def split: option.splits)

lemma onWatchStatusChange_fields [simp]:
  "diagnosticsByConfig (onWatchStatusChange c m now s) = diagnosticsByConfig s"
  "cache (onWatchStatusChange c m now s) = cache s"
  "watchers (onWatchStatusChange c m now s) = watchers s"
  "isActive (onWatchStatusChange c m now s) = isActive s"
  "configs (onWatchStatusChange c m now s) = configs s"
  "nextWatcher (onWatchStatusChange c m now s) = nextWatcher s"
  "closedWatchers (onWatchStatusChange c m now s) = closedWatchers s"
  by (simp_all add: onWatchStatusChange_def Let_def)

lemma bucketOf_onDiagnostic:
  "bucketOf cp f (onDiagnostic c d now s) =
     (if map_of (diagnosticsByConfig s) (configPath c) \<noteq> None
         \<and> cp = configPath c \<and> f = fileD (convertDiagnostic d)
      then Some ((case bucketOf cp f s of None \<Rightarrow> [] | Some b \<Rightarrow> b) @ [convertDiagnostic d])
      else bucketOf cp f s)"
proof (cases "map_of (diagnosticsByConfig s) (configPath c)")
  case None
  then show ?thesis by (simp add: onDiagnostic_dropped)
next
  case (Some m)
  show ?thesis
    using Some by (simp add: bucketOf_def onDiagnostic_store [OF Some] update_conv')
qed

lemma cached_onDiagnostic_written:
  assumes "map_of (diagnosticsByConfig s) (configPath c) \<noteq> None"
  shows "map_of (entries (cache (onDiagnostic c d now s)))
           (cacheKey (configPath c) (fileD (convertDiagnostic d))) =
         Some \<lparr> ce_diagnostics =
                  (case bucketOf (configPath c) (fileD (convertDiagnostic d)) s of
                     None \<Rightarrow> [] | Some b \<Rightarrow> b) @ [convertDiagnostic d],
                ce_timestamp = now, ce_fileHash = None \<rparr>"
proof -
  obtain m where m: "map_of (diagnosticsByConfig s) (configPath c) = Some m"
    using assms by auto
  show ?thesis
    by (simp add: bucketOf_def m onDiagnostic_cache [OF m] cache_set_written)
qed

lemma cached_onDiagnostic_others:
  assumes "map_of (entries (cache (onDiagnostic c d now s))) k = Some e"
    and "k \<noteq> cacheKey (configPath c) (fileD (convertDiagnostic d))"
  shows "map_of (entries (cache s)) k = Some e"
proof (cases "map_of (diagnosticsByConfig s) (configPath c)")
  case None
  then show ?thesis using assms by (simp add: onDiagnostic_dropped)
next
  case (Some m)
  have "map_of (entries (cache_set (cacheKey (configPath c) (fileD (convertDiagnostic d)))
            ((case map_of m (fileD (convertDiagnostic d)) of None \<Rightarrow> [] | Some b \<Rightarrow> b)
               @ [convertDiagnostic d]) now None (cache s))) k = Some e"
    using assms(1) by (simp add: onDiagnostic_cache [OF Some])
  with assms(2) show ?thesis
    by (rule cache_set_others)
qed

lemma bucketOf_onWatchStatusChange [simp]:
  "bucketOf cp f (onWatchStatusChange c m now s) = bucketOf cp f s"
  by (simp add: bucketOf_def)

lemma store_keys_onDiagnostic:
  "map fst (diagnosticsByConfig (onDiagnostic c d now s)) = map fst (diagnosticsByConfig s)"
proof (cases "map_of (diagnosticsByConfig s) (configPath c)")
  case None
  then show ?thesis by (simp add: onDiagnostic_dropped)
next
  case (Some m)
  then have "(configPath c, m) \<in> set (diagnosticsByConfig s)"
    by (rule map_of_SomeD)
  then have "configPath c \<in> fst ` set (diagnosticsByConfig s)"
    by force
  then show ?thesis
    by (simp add: onDiagnostic_store [OF Some] update_keys)
qed

lemma map_of_store_onDiagnostic:
  "map_of (diagnosticsByConfig (onDiagnostic c d now s)) cp =
     (case map_of (diagnosticsByConfig s) cp of
        None \<Rightarrow> None
      | Some m \<Rightarrow>
          Some (if cp = configPath c
                then AList.update (fileD (convertDiagnostic d))
                       ((case map_of m (fileD (convertDiagnostic d)) of
                           None \<Rightarrow> [] | Some b \<Rightarrow> b) @ [convertDiagnostic d]) m
                else m))"
proof (cases "map_of (diagnosticsByConfig s) (configPath c)")
  case None
  then show ?thesis by (auto simp: onDiagnostic_dropped split: option.splits)
next
  case (Some m)
  then show ?thesis
    by (auto simp: onDiagnostic_store [OF Some] update_conv' split: option.splits)
qed

subsection \<open>Starting\<close>

lemma startWatchingConfig_missing:
  "\<not> existsSync h (configPath c) \<Longrightarrow> startWatchingConfig h c s = s"
  by (simp add: startWatchingConfig_def)

lemma startWatchingConfig_present:
  "existsSync h (configPath c) \<Longrightarrow>
   startWatchingConfig h c s =
     (fold (deliver c) (initialBuild h c) s)
       \<lparr> nextWatcher := nextWatcher (fold (deliver c) (initialBuild h c) s) + 1,
         watchers := AList.update (configPath c)
                       (nextWatcher (fold (deliver c) (initialBuild h c) s))
                       (watchers (fold (deliver c) (initialBuild h c) s)),
         diagnosticsByConfig := AList.update (configPath c) []
                       (diagnosticsByConfig (fold (deliver c) (initialBuild h c) s)) \<rparr>"
  by (simp add: startWatchingConfig_def Let_def)

lemma fold_deliver_invariant:
  assumes "Q s" and "\<And>ev s. ev \<in> set evs \<Longrightarrow> Q s \<Longrightarrow> Q (deliver c ev s)"
  shows "Q (fold (deliver c) evs s)"
  using assms
proof (induction evs arbitrary: s)
  case Nil
  then show ?case by simp
next
  case (Cons ev evs)
  have "Q (deliver c ev s)" using Cons.prems by simp
  then have "Q (fold (deliver c) evs (deliver c ev s))"
    using Cons.prems(2) by (intro Cons.IH) simp_all
  then show ?case by simp
qed

lemma startWatchingConfig_invariant:
  assumes q: "Q s"
    and del: "\<And>ev s. ev \<in> set (initialBuild h c) \<Longrightarrow> Q s \<Longrightarrow> Q (deliver c ev s)"
    and ins: "\<And>s. Q s \<Longrightarrow>
        Q (s\<lparr> nextWatcher := nextWatcher s + 1,
              watchers := AList.update (configPath c) (nextWatcher s) (watchers s),
              diagnosticsByConfig := AList.update (configPath c) [] (diagnosticsByConfig s) \<rparr>)"
  shows "Q (startWatchingConfig h c s)"
proof (cases "existsSync h (configPath c)")
  case False
  then show ?thesis using q by (simp add: startWatchingConfig_missing)
next
  case True
  have "Q (fold (deliver c) (initialBuild h c) s)"
    using q del by (rule fold_deliver_invariant)
  then show ?thesis
    unfolding startWatchingConfig_present [OF True] by (rule ins)
qed

lemma fold_startWatchingConfig_invariant:
  assumes q: "Q s"
    and sub: "set cs \<subseteq> set cfgs"
    and del: "\<And>c ev s. c \<in> set cfgs \<Longrightarrow> ev \<in> set (initialBuild h c) \<Longrightarrow> Q s \<Longrightarrow>
                Q (deliver c ev s)"
    and ins: "\<And>c s. Q s \<Longrightarrow> c \<in> set cfgs \<Longrightarrow>
        Q (s\<lparr> nextWatcher := nextWatcher s + 1,
              watchers := AList.update (configPath c) (nextWatcher s) (watchers s),
              diagnosticsByConfig := AList.update (configPath c) [] (diagnosticsByConfig s) \<rparr>)"
  shows "Q (fold (startWatchingConfig h) cs s)"
  using q sub
proof (induction cs arbitrary: s)
  case Nil
  then show ?case by simp
next
  case (Cons c cs)
  have c: "c \<in> set cfgs" using Cons.prems by simp
  have "Q (startWatchingConfig h c s)"
    by (rule startWatchingConfig_invariant [where Q = Q, OF Cons.prems(1) del [OF c] ins [OF _ c]])
  then show ?case using Cons by simp
qed

lemma start_invariant:
  assumes p: "P s"
    and cfg: "configs s = cfgs"
    and act: "\<not> isActive s \<Longrightarrow> Q (s\<lparr> isActive := True \<rparr>)"
    and del: "\<And>c ev s. c \<in> set cfgs \<Longrightarrow> ev \<in> set (initialBuild h c) \<Longrightarrow> Q s \<Longrightarrow>
                Q (deliver c ev s)"
    and ins: "\<And>c s. Q s \<Longrightarrow> c \<in> set cfgs \<Longrightarrow>
        Q (s\<lparr> nextWatcher := nextWatcher s + 1,
              watchers := AList.update (configPath c) (nextWatcher s) (watchers s),
              diagnosticsByConfig := AList.update (configPath c) [] (diagnosticsByConfig s) \<rparr>)"
    and em: "\<And>e s. Q s \<Longrightarrow> P (emit e s)"
  shows "P (start h s)"
proof (cases "isActive s")
  case True
  then show ?thesis using p by (simp add: start_def)
next
  case False
  have q: "Q (fold (startWatchingConfig h) cfgs (s\<lparr> isActive := True \<rparr>))"
    by (rule fold_startWatchingConfig_invariant [where Q = Q and cfgs = cfgs,
          OF act [OF False] subset_refl del ins])
  have st: "start h s =
      emit (started (length (configs
              (fold (startWatchingConfig h) cfgs (s\<lparr> isActive := True \<rparr>)))))
        (fold (startWatchingConfig h) cfgs (s\<lparr> isActive := True \<rparr>))"
    using False by (simp add: start_def Let_def cfg [symmetric])
  show ?thesis
    unfolding st using q by (rule em)
qed

lemma deliver_fields [simp]:
  "watchers (deliver c ev s) = watchers s"
  "isActive (deliver c ev s) = isActive s"
  "configs (deliver c ev s) = configs s"
  "nextWatcher (deliver c ev s) = nextWatcher s"
  "closedWatchers (deliver c ev s) = closedWatchers s"
  by (cases ev; simp)+

lemma clearFileDiagnostics_fields [simp]:
  "watchers (clearFileDiagnostics p s) = watchers s"
  "isActive (clearFileDiagnostics p s) = isActive s"
  "configs (clearFileDiagnostics p s) = configs s"
  "nextWatcher (clearFileDiagnostics p s) = nextWatcher s"
  "closedWatchers (clearFileDiagnostics p s) = closedWatchers s"
  by (simp_all add: clearFileDiagnostics_def)

lemma clearAllDiagnostics_fields [simp]:
  "watchers (clearAllDiagnostics s) = watchers s"
  "isActive (clearAllDiagnostics s) = isActive s"
  "configs (clearAllDiagnostics s) = configs s"
  "nextWatcher (clearAllDiagnostics s) = nextWatcher s"
  "closedWatchers (clearAllDiagnostics s) = closedWatchers s"
  by (simp_all add: clearAllDiagnostics_def)

lemma triggerRecompile_fields [simp]:
  "watchers (triggerRecompile s) = watchers s"
  "isActive (triggerRecompile s) = isActive s"
  "configs (triggerRecompile s) = configs s"
  "diagnosticsByConfig (triggerRecompile s) = diagnosticsByConfig s"
  "cache (triggerRecompile s) = cache s"
  by (simp_all add: triggerRecompile_def)

lemma stop_fields [simp]:
  "configs (stop s) = configs s"
  "diagnosticsByConfig (stop s) = diagnosticsByConfig s"
  "cache (stop s) = cache s"
  "isActive (stop s) = False"
  by (simp_all add: stop_def)

lemma sessionsInv_start: "sessionsInv s \<Longrightarrow> sessionsInv (start h s)"
proof (rule start_invariant [where P = sessionsInv and Q = isActive and cfgs = "configs s"])
  show "\<And>e s. isActive s \<Longrightarrow> sessionsInv (emit e s)"
    by (simp add: sessionsInv_def)
qed simp_all

lemma sessionsInv_step:
  assumes "sessionsInv s"
  shows "sessionsInv (step op s)"
proof (cases op)
  case (Start h)
  then show ?thesis using assms by (simp add: sessionsInv_start)
next
  case Stop
  then show ?thesis using assms by (simp add: sessionsInv_def stop_def)
qed (use assms in \<open>simp_all add: sessionsInv_def\<close>)

lemma run_snoc: "run (ops @ [op]) s = step op (run ops s)"
  by (simp add: run_def)

lemma run_Nil [simp]: "run [] s = s"
  by (simp add: run_def)

lemma run_Cons: "run (op # ops) s = run ops (step op s)"
  by (simp add: run_def)

lemma run_invariant:
  assumes "P s" and "\<And>op s. P s \<Longrightarrow> P (step op s)"
  shows "P (run ops s)"
proof (induction ops rule: rev_induct)
  case Nil
  show ?case using assms(1) by simp
next
  case (snoc op ops)
  then show ?case using assms(2) by (simp add: run_snoc)
qed

lemma sessionsInv_reachable: "sessionsInv (run ops (newTypeScriptWatchManager cfgs mb))"
proof (rule run_invariant)
  show "sessionsInv (newTypeScriptWatchManager cfgs mb)"
    by (simp add: sessionsInv_def newTypeScriptWatchManager_def)
qed (rule sessionsInv_step)

lemma map_fst_map_values: "map (fst \<circ> (\<lambda>(k, v). (k, g v))) xs = map fst xs"
  by (induction xs) auto

lemma map_of_map_values:
  "map_of (map (\<lambda>(k, v). (k, g v)) xs) k = map_option g (map_of xs k)"
  by (induction xs) auto

lemma clearFileDiagnostics_store:
  "diagnosticsByConfig (clearFileDiagnostics p s) =
     map (\<lambda>(cp, m). (cp, AList.delete p m)) (diagnosticsByConfig s)"
  by (simp add: clearFileDiagnostics_def)

lemma clearAllDiagnostics_store:
  "diagnosticsByConfig (clearAllDiagnostics s) =
     map (\<lambda>(cp, m). (cp, [])) (diagnosticsByConfig s)"
  by (simp add: clearAllDiagnostics_def)

lemma bucketOf_clearFileDiagnostics:
  "bucketOf cp f (clearFileDiagnostics p s) = (if f = p then None else bucketOf cp f s)"
  by (auto simp: bucketOf_def clearFileDiagnostics_store map_of_map_values delete_conv'
      split: option.splits)

lemma bucketOf_clearAllDiagnostics [simp]:
  "bucketOf cp f (clearAllDiagnostics s) = None"
  by (auto simp: bucketOf_def clearAllDiagnostics_store map_of_map_values split: option.splits)

lemma storeInv_cong:
  "diagnosticsByConfig t = diagnosticsByConfig s \<Longrightarrow> configs t = configs s \<Longrightarrow>
   storeInv t = storeInv s"
  unfolding storeInv_def by simp

lemma storeInv_onDiagnostic:
  assumes "storeInv s"
  shows "storeInv (onDiagnostic c d now s)"
  unfolding storeInv_def
proof (intro conjI allI impI)
  show "distinct (map fst (diagnosticsByConfig (onDiagnostic c d now s)))"
    using assms by (simp add: store_keys_onDiagnostic storeInv_def)
next
  fix cp m'
  assume a: "map_of (diagnosticsByConfig (onDiagnostic c d now s)) cp = Some m'"
  then obtain m where m: "map_of (diagnosticsByConfig s) cp = Some m"
    and m': "m' = m \<or> (\<exists>x. m' = AList.update (fileD (convertDiagnostic d)) x m)"
    by (auto simp: map_of_store_onDiagnostic split: option.splits if_splits)
  have dm: "distinct (map fst m)" and mem: "cp \<in> configPath ` set (configs s)"
    using assms m by (auto simp: storeInv_def)
  show "distinct (map fst m')" using m' dm by (auto simp: distinct_update)
  show "cp \<in> configPath ` set (configs (onDiagnostic c d now s))" using mem by simp
qed

lemma storeInv_deliver: "storeInv s \<Longrightarrow> storeInv (deliver c ev s)"
  by (cases ev) (simp_all add: storeInv_onDiagnostic storeInv_cong [of "onWatchStatusChange _ _ _ s" s])

lemma storeInv_install:
  assumes "storeInv s" and "c \<in> set (configs s)"
  shows "storeInv (s\<lparr> nextWatcher := n, watchers := w,
            diagnosticsByConfig := AList.update (configPath c) [] (diagnosticsByConfig s) \<rparr>)"
  using assms by (auto simp: storeInv_def distinct_update update_conv' split: if_splits)

lemma storeInv_start: "storeInv s \<Longrightarrow> storeInv (start h s)"
proof (rule start_invariant [where P = storeInv and cfgs = "configs s"
        and Q = "\<lambda>t. storeInv t \<and> configs t = configs s"])
  show "\<And>c ev t. storeInv t \<and> configs t = configs s \<Longrightarrow>
          storeInv (deliver c ev t) \<and> configs (deliver c ev t) = configs s"
    by (simp add: storeInv_deliver)
  show "\<And>c t. storeInv t \<and> configs t = configs s \<Longrightarrow> c \<in> set (configs s) \<Longrightarrow>
          storeInv (t\<lparr> nextWatcher := nextWatcher t + 1,
              watchers := AList.update (configPath c) (nextWatcher t) (watchers t),
              diagnosticsByConfig := AList.update (configPath c) [] (diagnosticsByConfig t) \<rparr>)
          \<and> configs (t\<lparr> nextWatcher := nextWatcher t + 1,
              watchers := AList.update (configPath c) (nextWatcher t) (watchers t),
              diagnosticsByConfig := AList.update (configPath c) [] (diagnosticsByConfig t) \<rparr>)
             = configs s"
    using storeInv_install by simp
  show "\<And>e t. storeInv t \<and> configs t = configs s \<Longrightarrow> storeInv (emit e t)"
    by (simp add: storeInv_cong [of "emit _ _"])
  show "\<not> isActive s \<Longrightarrow> storeInv (s\<lparr> isActive := True \<rparr>)
          \<and> configs (s\<lparr> isActive := True \<rparr>) = configs s"
    if "storeInv s" using that by (simp add: storeInv_cong [of "s\<lparr> isActive := True \<rparr>" s])
qed simp_all

lemma storeInv_clearFileDiagnostics:
  assumes "storeInv s"
  shows "storeInv (clearFileDiagnostics p s)"
  unfolding storeInv_def
proof (intro conjI allI impI)
  show "distinct (map fst (diagnosticsByConfig (clearFileDiagnostics p s)))"
    using assms by (simp add: clearFileDiagnostics_store map_fst_map_values storeInv_def)
next
  fix cp m'
  assume "map_of (diagnosticsByConfig (clearFileDiagnostics p s)) cp = Some m'"
  then obtain m where m: "map_of (diagnosticsByConfig s) cp = Some m"
    and m': "m' = AList.delete p m"
    by (auto simp: clearFileDiagnostics_store map_of_map_values)
  have dm: "distinct (map fst m)" and mem: "cp \<in> configPath ` set (configs s)"
    using assms m by (auto simp: storeInv_def)
  show "distinct (map fst m')" using m' dm by (simp add: distinct_delete)
  show "cp \<in> configPath ` set (configs (clearFileDiagnostics p s))" using mem by simp
qed

lemma storeInv_clearAllDiagnostics:
  assumes "storeInv s"
  shows "storeInv (clearAllDiagnostics s)"
  unfolding storeInv_def
proof (intro conjI allI impI)
  show "distinct (map fst (diagnosticsByConfig (clearAllDiagnostics s)))"
    using assms by (simp add: clearAllDiagnostics_store map_fst_map_values storeInv_def)
next
  fix cp m'
  assume "map_of (diagnosticsByConfig (clearAllDiagnostics s)) cp = Some m'"
  then obtain m where m: "map_of (diagnosticsByConfig s) cp = Some m" and m': "m' = []"
    by (auto simp: clearAllDiagnostics_store map_of_map_values)
  have mem: "cp \<in> configPath ` set (configs s)"
    using assms m by (auto simp: storeInv_def)
  show "distinct (map fst m')" using m' by simp
  show "cp \<in> configPath ` set (configs (clearAllDiagnostics s))" using mem by simp
qed

lemma storeInv_step:
  assumes "storeInv s"
  shows "storeInv (step op s)"
proof (cases op)
  case (Start h)
  then show ?thesis using assms by (simp add: storeInv_start)
next
  case (Report c ev)
  then show ?thesis using assms by (simp add: storeInv_deliver)
next
  case (GetFileDiagnostics p now)
  then show ?thesis using assms
    by (simp add: storeInv_cong [of "snd (getFileDiagnostics p now s)" s])
next
  case (HasErrors p now)
  then show ?thesis using assms
    by (simp add: storeInv_cong [of "snd (hasErrors p now s)" s])
next
  case (ClearFileDiagnostics p)
  then show ?thesis using assms by (simp add: storeInv_clearFileDiagnostics)
next
  case ClearAllDiagnostics
  then show ?thesis using assms by (simp add: storeInv_clearAllDiagnostics)
next
  case Stop
  then show ?thesis using assms by (simp add: storeInv_cong [of "stop s" s])
next
  case TriggerRecompile
  then show ?thesis using assms by (simp add: storeInv_cong [of "triggerRecompile s" s])
next
  case (Evict k)
  then show ?thesis using assms
    by (simp add: storeInv_cong [of "s\<lparr> cache := evict k (cache s) \<rparr>" s])
qed

lemma storeInv_reachable: "storeInv (run ops (newTypeScriptWatchManager cfgs mb))"
proof (rule run_invariant)
  show "storeInv (newTypeScriptWatchManager cfgs mb)"
    by (simp add: storeInv_def newTypeScriptWatchManager_def)
qed (rule storeInv_step)

lemma configs_step [simp]: "configs (step op s) = configs s"
proof (cases op)
  case (Start h)
  have "configs (start h s) = configs s"
    by (rule start_invariant [where P = "\<lambda>t. configs t = configs s"
          and Q = "\<lambda>t. configs t = configs s" and cfgs = "configs s"]) simp_all
  then show ?thesis using Start by simp
qed simp_all

lemma configs_run [simp]: "configs (run ops s) = configs s"
  by (rule run_invariant [where P = "\<lambda>t. configs t = configs s"]) simp_all

subsection \<open>Watched files\<close>

lemma length_bucket_card:
  assumes "storeInv s" and "(cp, m) \<in> set (diagnosticsByConfig s)"
  shows "length m = card {f. bucketOf cp f s \<noteq> None}"
proof -
  have mo: "map_of (diagnosticsByConfig s) cp = Some m"
    using assms by (simp add: storeInv_def)
  then have d: "distinct (map fst m)" using assms(1) by (simp add: storeInv_def)
  have "{f. bucketOf cp f s \<noteq> None} = dom (map_of m)"
    using mo by (auto simp: bucketOf_def)
  also have "\<dots> = set (map fst m)" by (simp add: dom_map_of_conv_image_fst)
  finally have "card {f. bucketOf cp f s \<noteq> None} = card (set (map fst m))" by simp
  also have "\<dots> = length (map fst m)" using d by (rule distinct_card)
  finally show ?thesis by simp
qed

lemma getTotalFilesWatched_card:
  assumes "storeInv s"
  shows "getTotalFilesWatched s =
           (\<Sum>cp \<leftarrow> map fst (diagnosticsByConfig s). card {f. bucketOf cp f s \<noteq> None})"
proof -
  have eq: "map (\<lambda>x. length (snd x)) (diagnosticsByConfig s) =
        map (\<lambda>x. card {f. bucketOf (fst x) f s \<noteq> None}) (diagnosticsByConfig s)"
  proof (rule map_cong [OF refl])
    fix x assume "x \<in> set (diagnosticsByConfig s)"
    then show "length (snd x) = card {f. bucketOf (fst x) f s \<noteq> None}"
      using length_bucket_card [OF assms, of "fst x" "snd x"] by simp
  qed
  have "getTotalFilesWatched s = sum_list (map (\<lambda>x. length (snd x)) (diagnosticsByConfig s))"
    by (simp add: getTotalFilesWatched_def case_prod_unfold)
  also have "\<dots> = sum_list (map (\<lambda>x. card {f. bucketOf (fst x) f s \<noteq> None})
                        (diagnosticsByConfig s))"
    by (simp only: eq)
  also have "\<dots> = (\<Sum>cp \<leftarrow> map fst (diagnosticsByConfig s). card {f. bucketOf cp f s \<noteq> None})"
    by (simp add: comp_def)
  finally show ?thesis .
qed

lemma getTotalFilesWatched_clearAll [simp]:
  "getTotalFilesWatched (clearAllDiagnostics s) = 0"
  by (simp add: getTotalFilesWatched_def clearAllDiagnostics_store comp_def case_prod_unfold)

lemma fold_deliver_other_projects:
  "map fst (diagnosticsByConfig (fold (deliver c) evs s)) = map fst (diagnosticsByConfig s)
   \<and> (\<forall>cp. cp \<noteq> configPath c \<longrightarrow>
         map_of (diagnosticsByConfig (fold (deliver c) evs s)) cp
           = map_of (diagnosticsByConfig s) cp)"
proof (rule fold_deliver_invariant
    [where Q = "\<lambda>t::TypeScriptWatchManager.
                 map fst (diagnosticsByConfig t) = map fst (diagnosticsByConfig s)
                 \<and> (\<forall>cp. cp \<noteq> configPath c \<longrightarrow>
                       map_of (diagnosticsByConfig t) cp = map_of (diagnosticsByConfig s) cp)"])
  fix ev and t :: TypeScriptWatchManager
  assume q: "map fst (diagnosticsByConfig t) = map fst (diagnosticsByConfig s)
     \<and> (\<forall>cp. cp \<noteq> configPath c \<longrightarrow>
           map_of (diagnosticsByConfig t) cp = map_of (diagnosticsByConfig s) cp)"
  show "map fst (diagnosticsByConfig (deliver c ev t)) = map fst (diagnosticsByConfig s)
     \<and> (\<forall>cp. cp \<noteq> configPath c \<longrightarrow>
           map_of (diagnosticsByConfig (deliver c ev t)) cp = map_of (diagnosticsByConfig s) cp)"
  proof (cases ev)
    case (ReportDiagnostic d now)
    then show ?thesis
      using q by (auto simp: store_keys_onDiagnostic map_of_store_onDiagnostic split: option.splits)
  next
    case (ReportWatchStatus m now)
    then show ?thesis using q by simp
  qed
qed simp

lemma allEmpty_startWatchingConfig:
  assumes "allEmpty s"
  shows "allEmpty (startWatchingConfig h c s)"
proof (cases "existsSync h (configPath c)")
  case False
  then show ?thesis using assms by (simp add: startWatchingConfig_missing)
next
  case True
  let ?s1 = "fold (deliver c) (initialBuild h c) s"
  have k: "map fst (diagnosticsByConfig ?s1) = map fst (diagnosticsByConfig s)"
    and o: "\<And>cp. cp \<noteq> configPath c \<Longrightarrow>
              map_of (diagnosticsByConfig ?s1) cp = map_of (diagnosticsByConfig s) cp"
    using fold_deliver_other_projects [of c "initialBuild h c" s] by auto
  have d: "distinct (map fst (diagnosticsByConfig ?s1))"
    using assms k by (simp add: allEmpty_def)
  show ?thesis
    unfolding startWatchingConfig_present [OF True] allEmpty_def
    using d o assms by (auto simp: distinct_update update_conv' allEmpty_def split: if_splits)
qed

lemma fold_preserves:
  assumes "Q s" and "\<And>x s. Q s \<Longrightarrow> Q (f x s)"
  shows "Q (fold f xs s)"
  using assms(1)
proof (induction xs arbitrary: s)
  case Nil
  then show ?case by simp
next
  case (Cons x xs)
  then show ?case using assms(2) by simp
qed

lemma allEmpty_total: "allEmpty s \<Longrightarrow> getTotalFilesWatched s = 0"
  by (auto simp: allEmpty_def getTotalFilesWatched_def)

lemma allEmpty_cong:
  "diagnosticsByConfig t = diagnosticsByConfig s \<Longrightarrow> allEmpty t = allEmpty s"
  unfolding allEmpty_def by simp

lemma allEmpty_start:
  assumes "allEmpty s" and "\<not> isActive s"
  shows "allEmpty (start h s) \<and> isActive (start h s)"
proof -
  let ?s2 = "fold (startWatchingConfig h) (configs s) (s\<lparr> isActive := True \<rparr>)"
  have "allEmpty ?s2 \<and> isActive ?s2"
  proof (rule fold_preserves [where Q = "\<lambda>t. allEmpty t \<and> isActive t"])
    show "allEmpty (s\<lparr> isActive := True \<rparr>) \<and> isActive (s\<lparr> isActive := True \<rparr>)"
      using assms(1) by (simp add: allEmpty_cong [of "s\<lparr> isActive := True \<rparr>" s])
  next
    fix c and t :: TypeScriptWatchManager
    assume q: "allEmpty t \<and> isActive t"
    have "isActive (startWatchingConfig h c t) = isActive t"
      by (rule startWatchingConfig_invariant [where Q = "\<lambda>u::TypeScriptWatchManager. isActive u = isActive t"]) simp_all
    then show "allEmpty (startWatchingConfig h c t) \<and> isActive (startWatchingConfig h c t)"
      using q by (simp add: allEmpty_startWatchingConfig)
  qed
  then show ?thesis
    using assms(2) by (simp add: start_def Let_def allEmpty_cong [of "emit _ _"])
qed

lemma emptyOrPending_startWatchingConfig:
  assumes "emptyOrPending h (c # cs) s"
  shows "emptyOrPending h cs (startWatchingConfig h c s)"
proof (cases "existsSync h (configPath c)")
  case False
  show ?thesis
    unfolding startWatchingConfig_missing [OF False] emptyOrPending_def
  proof (intro conjI allI impI)
    show "distinct (map fst (diagnosticsByConfig s))"
      using assms by (simp add: emptyOrPending_def)
  next
    fix cp m
    assume "map_of (diagnosticsByConfig s) cp = Some m"
    then have "m = [] \<or> (\<exists>c' \<in> set (c # cs). configPath c' = cp \<and> existsSync h cp)"
      using assms unfolding emptyOrPending_def by blast
    then show "m = [] \<or> (\<exists>c' \<in> set cs. configPath c' = cp \<and> existsSync h cp)"
      using False by auto
  qed
next
  case True
  let ?s1 = "fold (deliver c) (initialBuild h c) s"
  have k: "map fst (diagnosticsByConfig ?s1) = map fst (diagnosticsByConfig s)"
    and o: "\<And>cp. cp \<noteq> configPath c \<Longrightarrow>
              map_of (diagnosticsByConfig ?s1) cp = map_of (diagnosticsByConfig s) cp"
    using fold_deliver_other_projects [of c "initialBuild h c" s] by auto
  have d: "distinct (map fst (diagnosticsByConfig ?s1))"
    using assms k by (simp add: emptyOrPending_def)
  show ?thesis
    unfolding startWatchingConfig_present [OF True] emptyOrPending_def
  proof (intro conjI allI impI)
    show "distinct (map fst (diagnosticsByConfig
            (?s1\<lparr> nextWatcher := nextWatcher ?s1 + 1,
                  watchers := AList.update (configPath c) (nextWatcher ?s1) (watchers ?s1),
                  diagnosticsByConfig := AList.update (configPath c) [] (diagnosticsByConfig ?s1) \<rparr>)))"
      using d by (simp add: distinct_update)
  next
    fix cp m
    assume a: "map_of (diagnosticsByConfig
            (?s1\<lparr> nextWatcher := nextWatcher ?s1 + 1,
                  watchers := AList.update (configPath c) (nextWatcher ?s1) (watchers ?s1),
                  diagnosticsByConfig := AList.update (configPath c) [] (diagnosticsByConfig ?s1) \<rparr>))
            cp = Some m"
    show "m = [] \<or> (\<exists>c' \<in> set cs. configPath c' = cp \<and> existsSync h cp)"
    proof (cases "cp = configPath c")
      case True
      then show ?thesis using a by (simp add: update_conv')
    next
      case False
      then have "map_of (diagnosticsByConfig s) cp = Some m"
        using a o by (simp add: update_conv')
      then have "m = [] \<or> (\<exists>c' \<in> set (c # cs). configPath c' = cp \<and> existsSync h cp)"
        using assms unfolding emptyOrPending_def by blast
      then show ?thesis using False by auto
    qed
  qed
qed

lemma emptyOrPending_fold:
  "emptyOrPending h cs s \<Longrightarrow> emptyOrPending h [] (fold (startWatchingConfig h) cs s)"
proof (induction cs arbitrary: s)
  case Nil
  then show ?case by simp
next
  case (Cons c cs)
  then show ?case by (simp add: emptyOrPending_startWatchingConfig)
qed

lemma emptyOrPending_Nil: "emptyOrPending h [] s = allEmpty s"
  by (simp add: emptyOrPending_def allEmpty_def)

lemma isActive_fold_startWatchingConfig:
  "isActive (fold (startWatchingConfig h) cs s) = isActive s"
proof (rule fold_startWatchingConfig_invariant
    [where Q = "\<lambda>t::TypeScriptWatchManager. isActive t = isActive s" and cfgs = cs])
qed simp_all

lemma restart_all_empty:
  assumes st: "storeInv s" and ina: "\<not> isActive s"
    and ex: "\<And>c. c \<in> set (configs s) \<Longrightarrow> existsSync h (configPath c)"
  shows "getTotalFilesWatched (start h s) = 0 \<and> isActive (start h s)"
proof -
  let ?s1 = "s\<lparr> isActive := True \<rparr>"
  have "emptyOrPending h (configs s) ?s1"
    unfolding emptyOrPending_def
  proof (intro conjI allI impI)
    show "distinct (map fst (diagnosticsByConfig ?s1))"
      using st by (simp add: storeInv_def)
  next
    fix cp m
    assume "map_of (diagnosticsByConfig ?s1) cp = Some m"
    then have "cp \<in> configPath ` set (configs s)"
      using st by (simp add: storeInv_def)
    then show "m = [] \<or> (\<exists>c \<in> set (configs s). configPath c = cp \<and> existsSync h cp)"
      using ex by auto
  qed
  then have "allEmpty (fold (startWatchingConfig h) (configs s) ?s1)"
    using emptyOrPending_fold [of h "configs s" ?s1] by (simp add: emptyOrPending_Nil)
  then have "allEmpty (start h s)"
    using ina by (simp add: start_def Let_def allEmpty_cong [of "emit _ _"])
  moreover have "isActive (start h s)"
    using ina by (simp add: start_def Let_def isActive_fold_startWatchingConfig)
  ultimately show ?thesis by (simp add: allEmpty_total)
qed

subsection \<open>Sessions\<close>

lemma update_fresh_key:
  "k \<notin> fst ` set al \<Longrightarrow> set (AList.update k v al) = insert (k, v) (set al)"
  by (induction al) auto

lemma openedInv_cong:
  "nextWatcher t = nextWatcher s \<Longrightarrow> closedWatchers t = closedWatchers s \<Longrightarrow>
   watchers t = watchers s \<Longrightarrow> openedInv t = openedInv s"
  unfolding openedInv_def by simp

lemma fold_deliver_sessions:
  "nextWatcher (fold (deliver c) evs s) = nextWatcher s
   \<and> closedWatchers (fold (deliver c) evs s) = closedWatchers s
   \<and> watchers (fold (deliver c) evs s) = watchers s
   \<and> isActive (fold (deliver c) evs s) = isActive s"
  by (rule fold_deliver_invariant
      [where Q = "\<lambda>t::TypeScriptWatchManager. nextWatcher t = nextWatcher s
                   \<and> closedWatchers t = closedWatchers s \<and> watchers t = watchers s
                   \<and> isActive t = isActive s"]) simp_all

lemma openedInv_fold_start:
  assumes "openedInv s" and "distinct (map configPath cs)"
    and "fst ` set (watchers s) \<inter> configPath ` set cs = {}"
  shows "openedInv (fold (startWatchingConfig h) cs s)"
  using assms
proof (induction cs arbitrary: s)
  case Nil
  then show ?case by simp
next
  case (Cons c cs)
  have fresh: "configPath c \<notin> fst ` set (watchers s)" using Cons.prems(3) by auto
  have "openedInv (startWatchingConfig h c s)
        \<and> fst ` set (watchers (startWatchingConfig h c s))
             \<subseteq> insert (configPath c) (fst ` set (watchers s))"
  proof (cases "existsSync h (configPath c)")
    case False
    then show ?thesis using Cons.prems(1) by (auto simp: startWatchingConfig_missing)
  next
    case True
    let ?s1 = "fold (deliver c) (initialBuild h c) s"
    have f: "nextWatcher ?s1 = nextWatcher s" "closedWatchers ?s1 = closedWatchers s"
      "watchers ?s1 = watchers s"
      using fold_deliver_sessions [of c "initialBuild h c" s] by simp_all
    have "set [0..<Suc (nextWatcher s)] = insert (nextWatcher s) (set [0..<nextWatcher s])"
      by auto
    then show ?thesis
      unfolding startWatchingConfig_present [OF True]
      using Cons.prems(1) fresh
      by (simp add: openedInv_def f update_fresh_key dom_update)
  qed
  then have o': "openedInv (startWatchingConfig h c s)"
    and k': "fst ` set (watchers (startWatchingConfig h c s))
               \<subseteq> insert (configPath c) (fst ` set (watchers s))"
    by simp_all
  have d': "distinct (map configPath cs)" using Cons.prems(2) by simp
  have "insert (configPath c) (fst ` set (watchers s)) \<inter> configPath ` set cs = {}"
    using Cons.prems(2,3) by auto
  then have i': "fst ` set (watchers (startWatchingConfig h c s)) \<inter> configPath ` set cs = {}"
    using k' by blast
  have "openedInv (fold (startWatchingConfig h) cs (startWatchingConfig h c s))"
    using o' d' i' by (rule Cons.IH)
  then show ?case by simp
qed

lemma openedInv_step:
  assumes o: "openedInv s" and se: "sessionsInv s" and d: "distinct (map configPath (configs s))"
  shows "openedInv (step op s)"
proof (cases op)
  case (Start h)
  show ?thesis
  proof (cases "isActive s")
    case True
    then show ?thesis using o Start by (simp add: start_def)
  next
    case False
    then have w: "watchers s = []" using se by (simp add: sessionsInv_def)
    have "openedInv (fold (startWatchingConfig h) (configs s) (s\<lparr> isActive := True \<rparr>))"
    proof (rule openedInv_fold_start)
      show "openedInv (s\<lparr> isActive := True \<rparr>)"
        using o by (simp add: openedInv_cong [of "s\<lparr> isActive := True \<rparr>" s])
    qed (use d w in simp_all)
    then show ?thesis
      using False Start by (simp add: start_def Let_def openedInv_cong [of "emit _ _"])
  qed
next
  case (Report c ev)
  then show ?thesis using o by (simp add: openedInv_cong [of "deliver c ev s" s])
next
  case (GetFileDiagnostics p now)
  then show ?thesis using o by (simp add: openedInv_cong [of "snd (getFileDiagnostics p now s)" s])
next
  case (HasErrors p now)
  then show ?thesis using o by (simp add: openedInv_cong [of "snd (hasErrors p now s)" s])
next
  case (ClearFileDiagnostics p)
  then show ?thesis using o by (simp add: openedInv_cong [of "clearFileDiagnostics p s" s])
next
  case ClearAllDiagnostics
  then show ?thesis using o by (simp add: openedInv_cong [of "clearAllDiagnostics s" s])
next
  case Stop
  then show ?thesis using o by (auto simp: openedInv_def stop_def emit_def)
next
  case TriggerRecompile
  then show ?thesis using o by (simp add: openedInv_def triggerRecompile_def emit_def)
next
  case (Evict k)
  then show ?thesis using o by (simp add: openedInv_def)
qed

lemma openedInv_reachable:
  assumes "distinct (map configPath cfgs)"
  shows "openedInv (run ops (newTypeScriptWatchManager cfgs mb))"
proof -
  have "openedInv (run ops (newTypeScriptWatchManager cfgs mb))
        \<and> sessionsInv (run ops (newTypeScriptWatchManager cfgs mb))
        \<and> configs (run ops (newTypeScriptWatchManager cfgs mb)) = cfgs"
  proof (rule run_invariant
      [where P = "\<lambda>t. openedInv t \<and> sessionsInv t \<and> configs t = cfgs"])
    show "openedInv (newTypeScriptWatchManager cfgs mb) \<and> sessionsInv (newTypeScriptWatchManager cfgs mb)
          \<and> configs (newTypeScriptWatchManager cfgs mb) = cfgs"
      by (simp add: openedInv_def sessionsInv_def newTypeScriptWatchManager_def)
  next
    fix op and s :: TypeScriptWatchManager
    assume "openedInv s \<and> sessionsInv s \<and> configs s = cfgs"
    then show "openedInv (step op s) \<and> sessionsInv (step op s) \<and> configs (step op s) = cfgs"
      using assms by (simp add: openedInv_step sessionsInv_step)
  qed
  then show ?thesis by simp
qed

subsection \<open>Store and cache\<close>

lemma cacheKey_same_project [simp]: "(cacheKey cp f = cacheKey cp f') = (f = f')"
  by (simp add: cacheKey_def)

lemma cacheKey_unambiguous:
  assumes u: "keysUnambiguous cfgs"
    and c: "cp \<in> configPath ` set cfgs" and c': "cp' \<in> configPath ` set cfgs"
    and k: "cacheKey cp f = cacheKey cp' f'"
  shows "cp = cp' \<and> f = f'"
proof -
  have np: "\<not> prefix (cp @ '':'') cp'" and np': "\<not> prefix (cp' @ '':'') cp"
    using u c c' by (auto simp: keysUnambiguous_def)
  from k have "cp @ ('':'' @ f) = cp' @ ('':'' @ f')" by (simp add: cacheKey_def)
  then obtain us where
    "(cp = cp' @ us \<and> us @ ('':'' @ f) = '':'' @ f') \<or> (cp @ us = cp' \<and> '':'' @ f = us @ ('':'' @ f'))"
    by (auto simp: append_eq_append_conv2)
  then show ?thesis
  proof
    assume a: "cp = cp' @ us \<and> us @ ('':'' @ f) = '':'' @ f'"
    show ?thesis
    proof (cases us)
      case Nil
      then show ?thesis using a by simp
    next
      case (Cons x xs)
      then have "x = CHR '':''" using a by simp
      then have "prefix (cp' @ '':'') cp" using a Cons by (simp add: prefix_def)
      then show ?thesis using np' by simp
    qed
  next
    assume a: "cp @ us = cp' \<and> '':'' @ f = us @ ('':'' @ f')"
    show ?thesis
    proof (cases us)
      case Nil
      then show ?thesis using a by simp
    next
      case (Cons x xs)
      then have "x = CHR '':''" using a by simp
      then have "prefix (cp @ '':'') cp'" using a Cons by (auto simp: prefix_def)
      then show ?thesis using np by simp
    qed
  qed
qed

lemma bucketOf_configured:
  assumes "storeInv s" and "bucketOf cp f s = Some b"
  shows "cp \<in> configPath ` set (configs s)"
  using assms by (auto simp: bucketOf_def storeInv_def split: option.splits)

lemma agreeInv_shrink:
  assumes "agreeInv s"
    and "\<And>cp f b. bucketOf cp f t = Some b \<Longrightarrow> bucketOf cp f s = Some b"
    and "\<And>k e. map_of (entries (cache t)) k = Some e \<Longrightarrow> map_of (entries (cache s)) k = Some e"
  shows "agreeInv t"
  using assms unfolding agreeInv_def by blast

lemma agreeInv_onDiagnostic:
  assumes u: "keysUnambiguous (configs s)" and st: "storeInv s" and ag: "agreeInv s"
  shows "agreeInv (onDiagnostic c d now s)"
proof (cases "map_of (diagnosticsByConfig s) (configPath c)")
  case None
  then show ?thesis using ag by (simp add: onDiagnostic_dropped)
next
  case (Some m)
  then have c0: "configPath c \<in> configPath ` set (configs s)"
    using st by (simp add: storeInv_def)
  show ?thesis
    unfolding agreeInv_def
  proof (intro allI impI, elim conjE)
    fix cp f b e
    assume b: "bucketOf cp f (onDiagnostic c d now s) = Some b"
      and e: "map_of (entries (cache (onDiagnostic c d now s))) (cacheKey cp f) = Some e"
    have cpc: "cp \<in> configPath ` set (configs s)"
      using bucketOf_configured [OF storeInv_onDiagnostic [OF st] b] by simp
    show "ce_diagnostics e = b"
    proof (cases "cacheKey cp f = cacheKey (configPath c) (fileD (convertDiagnostic d))")
      case True
      then have same: "cp = configPath c \<and> f = fileD (convertDiagnostic d)"
        using cacheKey_unambiguous [OF u cpc c0] by simp
      then show ?thesis
        using b e Some cached_onDiagnostic_written [of s c d now]
        by (auto simp: bucketOf_onDiagnostic)
    next
      case False
      then have "\<not> (cp = configPath c \<and> f = fileD (convertDiagnostic d))" by auto
      then have "bucketOf cp f s = Some b"
        using b by (auto simp: bucketOf_onDiagnostic split: if_splits)
      moreover have "map_of (entries (cache s)) (cacheKey cp f) = Some e"
        using e False by (rule cached_onDiagnostic_others)
      ultimately show ?thesis using ag by (auto simp: agreeInv_def)
    qed
  qed
qed

lemma agreeInv_deliver:
  assumes "keysUnambiguous (configs s)" and "storeInv s" and "agreeInv s"
  shows "agreeInv (deliver c ev s)"
proof (cases ev)
  case (ReportDiagnostic d now)
  then show ?thesis using assms by (simp add: agreeInv_onDiagnostic)
next
  case (ReportWatchStatus m now)
  show ?thesis
    unfolding ReportWatchStatus
    by (rule agreeInv_shrink [OF assms(3)]) simp_all
qed

lemma bucketOf_install:
  "bucketOf cp f (s\<lparr> nextWatcher := n, watchers := w,
       diagnosticsByConfig := AList.update cp0 [] (diagnosticsByConfig s) \<rparr>)
   = (if cp = cp0 then None else bucketOf cp f s)"
  by (simp add: bucketOf_def update_conv')

lemma fold_cache_delete_entries:
  "map_of (entries (fold (\<lambda>(cp, m). cache_delete (cacheKey cp p)) xs c)) k = Some e \<Longrightarrow>
   map_of (entries c) k = Some e"
proof (induction xs arbitrary: c)
  case Nil
  then show ?case by simp
next
  case (Cons x xs)
  obtain cp m where x: "x = (cp, m)" by (cases x)
  from Cons.prems x
  have "map_of (entries (fold (\<lambda>(cp, m). cache_delete (cacheKey cp p)) xs
          (cache_delete (cacheKey cp p) c))) k = Some e"
    by simp
  then have "map_of (entries (cache_delete (cacheKey cp p) c)) k = Some e"
    by (rule Cons.IH)
  then show ?case by (simp split: if_splits)
qed

lemma fold_cache_delete_removed:
  "(cp, m) \<in> set xs \<Longrightarrow>
   map_of (entries (fold (\<lambda>(cp, m). cache_delete (cacheKey cp p)) xs c)) (cacheKey cp p) = None"
proof (induction xs arbitrary: c)
  case Nil
  then show ?case by simp
next
  case (Cons x xs)
  show ?case
  proof (cases "(cp, m) \<in> set xs")
    case True
    then show ?thesis using Cons.IH by simp
  next
    case False
    then have x: "x = (cp, m)" using Cons.prems by simp
    have "map_of (entries (cache_delete (cacheKey cp p) c)) (cacheKey cp p) = None" by simp
    then have "map_of (entries (fold (\<lambda>(cp, m). cache_delete (cacheKey cp p)) xs
                 (cache_delete (cacheKey cp p) c))) (cacheKey cp p) = None"
      using fold_cache_delete_entries [of p xs "cache_delete (cacheKey cp p) c" "cacheKey cp p"]
      by (cases "map_of (entries (fold (\<lambda>(cp, m). cache_delete (cacheKey cp p)) xs
                 (cache_delete (cacheKey cp p) c))) (cacheKey cp p)") auto
    then show ?thesis using x by simp
  qed
qed

lemma clearFileDiagnostics_cache:
  "cache (clearFileDiagnostics p s) =
     fold (\<lambda>(cp, m). cache_delete (cacheKey cp p)) (diagnosticsByConfig s) (cache s)"
  by (simp add: clearFileDiagnostics_def)

lemma clearAllDiagnostics_entries [simp]:
  "entries (cache (clearAllDiagnostics s)) = []"
  by (simp add: clearAllDiagnostics_def)

lemma agreeInv_step:
  assumes u: "keysUnambiguous (configs s)" and st: "storeInv s" and ag: "agreeInv s"
  shows "agreeInv (step op s)"
proof (cases op)
  case (Start h)
  have "storeInv (start h s) \<and> agreeInv (start h s)"
  proof (rule start_invariant [where cfgs = "configs s"
        and P = "\<lambda>t. storeInv t \<and> agreeInv t"
        and Q = "\<lambda>t. storeInv t \<and> agreeInv t \<and> configs t = configs s"])
    show "storeInv s \<and> agreeInv s" using st ag by simp
    show "storeInv (s\<lparr> isActive := True \<rparr>) \<and> agreeInv (s\<lparr> isActive := True \<rparr>)
          \<and> configs (s\<lparr> isActive := True \<rparr>) = configs s"
      using st ag by (simp add: storeInv_cong [of "s\<lparr> isActive := True \<rparr>" s]
          agreeInv_def bucketOf_def)
    show "\<And>c ev t. storeInv t \<and> agreeInv t \<and> configs t = configs s \<Longrightarrow>
          storeInv (deliver c ev t) \<and> agreeInv (deliver c ev t)
          \<and> configs (deliver c ev t) = configs s"
      using u by (simp add: storeInv_deliver agreeInv_deliver)
    show "\<And>e t. storeInv t \<and> agreeInv t \<and> configs t = configs s \<Longrightarrow>
          storeInv (emit e t) \<and> agreeInv (emit e t)"
      by (simp add: storeInv_cong [of "emit _ _"] agreeInv_def bucketOf_def)
    show "\<And>c t. storeInv t \<and> agreeInv t \<and> configs t = configs s \<Longrightarrow> c \<in> set (configs s) \<Longrightarrow>
          storeInv (t\<lparr> nextWatcher := nextWatcher t + 1,
              watchers := AList.update (configPath c) (nextWatcher t) (watchers t),
              diagnosticsByConfig := AList.update (configPath c) [] (diagnosticsByConfig t) \<rparr>)
          \<and> agreeInv (t\<lparr> nextWatcher := nextWatcher t + 1,
              watchers := AList.update (configPath c) (nextWatcher t) (watchers t),
              diagnosticsByConfig := AList.update (configPath c) [] (diagnosticsByConfig t) \<rparr>)
          \<and> configs (t\<lparr> nextWatcher := nextWatcher t + 1,
              watchers := AList.update (configPath c) (nextWatcher t) (watchers t),
              diagnosticsByConfig := AList.update (configPath c) [] (diagnosticsByConfig t) \<rparr>)
             = configs s"
    proof -
      fix c and t :: TypeScriptWatchManager
      assume q: "storeInv t \<and> agreeInv t \<and> configs t = configs s" and c: "c \<in> set (configs s)"
      let ?t' = "t\<lparr> nextWatcher := nextWatcher t + 1,
              watchers := AList.update (configPath c) (nextWatcher t) (watchers t),
              diagnosticsByConfig := AList.update (configPath c) [] (diagnosticsByConfig t) \<rparr>"
      have "storeInv ?t'" using q c storeInv_install [of t c] by simp
      moreover have "agreeInv ?t'"
        by (rule agreeInv_shrink [where s = t])
          (use q in \<open>auto simp: bucketOf_install split: if_splits\<close>)
      ultimately show "storeInv ?t' \<and> agreeInv ?t' \<and> configs ?t' = configs s"
        using q by simp
    qed
  qed simp
  then show ?thesis using Start by simp
next
  case (Report c ev)
  then show ?thesis using assms by (simp add: agreeInv_deliver)
next
  case (GetFileDiagnostics p now)
  show ?thesis unfolding GetFileDiagnostics
    by (rule agreeInv_shrink [OF ag]) (simp_all add: bucketOf_def)
next
  case (HasErrors p now)
  show ?thesis unfolding HasErrors
    by (rule agreeInv_shrink [OF ag]) (simp_all add: bucketOf_def)
next
  case (ClearFileDiagnostics p)
  show ?thesis unfolding ClearFileDiagnostics
    by (rule agreeInv_shrink [OF ag])
      (auto simp: bucketOf_clearFileDiagnostics clearFileDiagnostics_cache
        dest: fold_cache_delete_entries split: if_splits)
next
  case ClearAllDiagnostics
  show ?thesis unfolding ClearAllDiagnostics
    by (rule agreeInv_shrink [OF ag]) simp_all
next
  case Stop
  show ?thesis unfolding Stop
    by (rule agreeInv_shrink [OF ag]) (simp_all add: bucketOf_def)
next
  case TriggerRecompile
  show ?thesis unfolding TriggerRecompile
    by (rule agreeInv_shrink [OF ag]) (simp_all add: bucketOf_def)
next
  case (Evict k)
  show ?thesis unfolding Evict
    by (rule agreeInv_shrink [OF ag]) (auto simp: bucketOf_def evict_def split: if_splits)
qed

lemma agree_reachable:
  assumes "keysUnambiguous cfgs"
  shows "agreeInv (run ops (newTypeScriptWatchManager cfgs mb))"
proof -
  have "storeInv (run ops (newTypeScriptWatchManager cfgs mb))
        \<and> agreeInv (run ops (newTypeScriptWatchManager cfgs mb))
        \<and> configs (run ops (newTypeScriptWatchManager cfgs mb)) = cfgs"
  proof (rule run_invariant [where P = "\<lambda>t. storeInv t \<and> agreeInv t \<and> configs t = cfgs"])
    show "storeInv (newTypeScriptWatchManager cfgs mb) \<and> agreeInv (newTypeScriptWatchManager cfgs mb)
          \<and> configs (newTypeScriptWatchManager cfgs mb) = cfgs"
      by (simp add: storeInv_def agreeInv_def bucketOf_def newTypeScriptWatchManager_def)
  next
    fix op and s :: TypeScriptWatchManager
    assume "storeInv s \<and> agreeInv s \<and> configs s = cfgs"
    then show "storeInv (step op s) \<and> agreeInv (step op s) \<and> configs (step op s) = cfgs"
      using assms by (simp add: storeInv_step agreeInv_step)
  qed
  then show ?thesis by simp
qed

lemma cache_only_shrinks:
  assumes "\<And>h. op \<noteq> Start h" and "\<And>c ev. op \<noteq> Report c ev"
    and "map_of (entries (cache (step op s))) k = Some e"
  shows "map_of (entries (cache s)) k = Some e"
proof (cases op)
  case (ClearFileDiagnostics p)
  then show ?thesis using assms(3)
    by (auto simp: clearFileDiagnostics_cache dest: fold_cache_delete_entries)
next
  case (Evict k')
  then show ?thesis using assms(3) by (auto simp: evict_def split: if_splits)
qed (use assms in auto)

subsection \<open>Cache keys and files reported\<close>

lemma cacheKeysInv_shrink:
  assumes "cacheKeysInv F s" and "F \<subseteq> F'" and "configs t = configs s"
    and "\<And>k e. map_of (entries (cache t)) k = Some e \<Longrightarrow> map_of (entries (cache s)) k = Some e"
  shows "cacheKeysInv F' t"
  unfolding cacheKeysInv_def
proof (intro allI impI)
  fix k e
  assume "map_of (entries (cache t)) k = Some e"
  then have "map_of (entries (cache s)) k = Some e" by (rule assms(4))
  then obtain cp f where "k = cacheKey cp f" "cp \<in> configPath ` set (configs s)" "f \<in> F"
    using assms(1) unfolding cacheKeysInv_def by blast
  then show "\<exists>cp f. k = cacheKey cp f \<and> cp \<in> configPath ` set (configs t) \<and> f \<in> F'"
    using assms(2,3) by auto
qed

lemma cacheKeysInv_cong:
  "cache t = cache s \<Longrightarrow> configs t = configs s \<Longrightarrow> cacheKeysInv F t = cacheKeysInv F s"
  unfolding cacheKeysInv_def by simp

lemma cacheKeysInv_deliver:
  assumes st: "storeInv s" and inv: "cacheKeysInv F s" and f: "set (reportedFiles [ev]) \<subseteq> F"
  shows "cacheKeysInv F (deliver c ev s)"
proof (cases ev)
  case (ReportWatchStatus m now)
  show ?thesis unfolding ReportWatchStatus
    by (rule cacheKeysInv_shrink [OF inv]) simp_all
next
  case (ReportDiagnostic d now)
  show ?thesis
  proof (cases "map_of (diagnosticsByConfig s) (configPath c)")
    case None
    then show ?thesis using inv ReportDiagnostic by (simp add: onDiagnostic_dropped)
  next
    case (Some m)
    then have c0: "configPath c \<in> configPath ` set (configs s)"
      using st by (simp add: storeInv_def)
    have f0: "fileD (convertDiagnostic d) \<in> F" using f ReportDiagnostic by simp
    show ?thesis
      unfolding ReportDiagnostic deliver.simps cacheKeysInv_def
    proof (intro allI impI)
      fix k e
      assume e: "map_of (entries (cache (onDiagnostic c d now s))) k = Some e"
      show "\<exists>cp f. k = cacheKey cp f
              \<and> cp \<in> configPath ` set (configs (onDiagnostic c d now s)) \<and> f \<in> F"
      proof (cases "k = cacheKey (configPath c) (fileD (convertDiagnostic d))")
        case True
        then show ?thesis using c0 f0 by auto
      next
        case False
        with e have "map_of (entries (cache s)) k = Some e"
          by (rule cached_onDiagnostic_others)
        then show ?thesis using inv by (simp add: cacheKeysInv_def)
      qed
    qed
  qed
qed

lemma reportedFiles_member:
  "ev \<in> set evs \<Longrightarrow> set (reportedFiles [ev]) \<subseteq> set (reportedFiles evs)"
proof (induction evs)
  case Nil
  then show ?case by simp
next
  case (Cons a evs)
  then show ?case by (cases a; cases ev) auto
qed

lemma cacheKeysInv_step:
  assumes st: "storeInv s" and inv: "cacheKeysInv F s"
  shows "cacheKeysInv (F \<union> set (filesOfOperation (configs s) op)) (step op s)"
proof (cases op)
  case (Start h)
  let ?F = "F \<union> set (filesOfOperation (configs s) (Start h))"
  have inv': "cacheKeysInv ?F s"
    by (rule cacheKeysInv_shrink [OF inv]) simp_all
  have "storeInv (start h s) \<and> cacheKeysInv ?F (start h s)"
  proof (rule start_invariant [where cfgs = "configs s"
        and P = "\<lambda>t. storeInv t \<and> cacheKeysInv ?F t"
        and Q = "\<lambda>t. storeInv t \<and> cacheKeysInv ?F t \<and> configs t = configs s"])
    show "storeInv s \<and> cacheKeysInv ?F s" using st inv' by simp
    show "storeInv (s\<lparr> isActive := True \<rparr>) \<and> cacheKeysInv ?F (s\<lparr> isActive := True \<rparr>)
          \<and> configs (s\<lparr> isActive := True \<rparr>) = configs s"
      using st inv' by (simp add: storeInv_cong [of "s\<lparr> isActive := True \<rparr>" s]
          cacheKeysInv_cong [of "s\<lparr> isActive := True \<rparr>" s])
    show "\<And>e t. storeInv t \<and> cacheKeysInv ?F t \<and> configs t = configs s \<Longrightarrow>
          storeInv (emit e t) \<and> cacheKeysInv ?F (emit e t)"
      by (simp add: storeInv_cong [of "emit _ _"] cacheKeysInv_cong [of "emit _ _"])
    show "\<And>c ev t. c \<in> set (configs s) \<Longrightarrow> ev \<in> set (initialBuild h c) \<Longrightarrow>
          storeInv t \<and> cacheKeysInv ?F t \<and> configs t = configs s \<Longrightarrow>
          storeInv (deliver c ev t) \<and> cacheKeysInv ?F (deliver c ev t)
          \<and> configs (deliver c ev t) = configs s"
    proof -
      fix c ev and t :: TypeScriptWatchManager
      assume c: "c \<in> set (configs s)" and ev: "ev \<in> set (initialBuild h c)"
        and q: "storeInv t \<and> cacheKeysInv ?F t \<and> configs t = configs s"
      have "set (reportedFiles [ev]) \<subseteq> set (reportedFiles (initialBuild h c))"
        using ev by (rule reportedFiles_member)
      also have "\<dots> \<subseteq> ?F" using c by auto
      finally have "cacheKeysInv ?F (deliver c ev t)"
        using q by (intro cacheKeysInv_deliver) simp_all
      then show "storeInv (deliver c ev t) \<and> cacheKeysInv ?F (deliver c ev t)
          \<and> configs (deliver c ev t) = configs s"
        using q by (simp add: storeInv_deliver)
    qed
    show "\<And>c t. storeInv t \<and> cacheKeysInv ?F t \<and> configs t = configs s \<Longrightarrow> c \<in> set (configs s) \<Longrightarrow>
          storeInv (t\<lparr> nextWatcher := nextWatcher t + 1,
              watchers := AList.update (configPath c) (nextWatcher t) (watchers t),
              diagnosticsByConfig := AList.update (configPath c) [] (diagnosticsByConfig t) \<rparr>)
          \<and> cacheKeysInv ?F (t\<lparr> nextWatcher := nextWatcher t + 1,
              watchers := AList.update (configPath c) (nextWatcher t) (watchers t),
              diagnosticsByConfig := AList.update (configPath c) [] (diagnosticsByConfig t) \<rparr>)
          \<and> configs (t\<lparr> nextWatcher := nextWatcher t + 1,
              watchers := AList.update (configPath c) (nextWatcher t) (watchers t),
              diagnosticsByConfig := AList.update (configPath c) [] (diagnosticsByConfig t) \<rparr>)
             = configs s"
    proof -
      fix c and t :: TypeScriptWatchManager
      assume q: "storeInv t \<and> cacheKeysInv ?F t \<and> configs t = configs s"
        and c: "c \<in> set (configs s)"
      let ?t' = "t\<lparr> nextWatcher := nextWatcher t + 1,
              watchers := AList.update (configPath c) (nextWatcher t) (watchers t),
              diagnosticsByConfig := AList.update (configPath c) [] (diagnosticsByConfig t) \<rparr>"
      have "storeInv ?t'" using q c storeInv_install [of t c] by simp
      moreover have "cacheKeysInv ?F ?t'"
      proof -
        have "cacheKeysInv ?F ?t' = cacheKeysInv ?F t"
          by (rule cacheKeysInv_cong) simp_all
        then show ?thesis using q by simp
      qed
      ultimately show "storeInv ?t' \<and> cacheKeysInv ?F ?t' \<and> configs ?t' = configs s"
        using q by simp
    qed
  qed simp
  then show ?thesis using Start by simp
next
  case (Report c ev)
  have "cacheKeysInv (F \<union> set (reportedFiles [ev])) s"
    by (rule cacheKeysInv_shrink [OF inv]) simp_all
  then have "cacheKeysInv (F \<union> set (reportedFiles [ev])) (deliver c ev s)"
    using st by (intro cacheKeysInv_deliver) simp_all
  then show ?thesis using Report by simp
next
  case (GetFileDiagnostics p now)
  show ?thesis unfolding GetFileDiagnostics
    by (rule cacheKeysInv_shrink [OF inv]) simp_all
next
  case (HasErrors p now)
  show ?thesis unfolding HasErrors
    by (rule cacheKeysInv_shrink [OF inv]) simp_all
next
  case (ClearFileDiagnostics p)
  show ?thesis unfolding ClearFileDiagnostics
    by (rule cacheKeysInv_shrink [OF inv])
      (auto simp: clearFileDiagnostics_cache dest: fold_cache_delete_entries)
next
  case ClearAllDiagnostics
  show ?thesis unfolding ClearAllDiagnostics
    by (rule cacheKeysInv_shrink [OF inv]) simp_all
next
  case Stop
  show ?thesis unfolding Stop
    by (rule cacheKeysInv_shrink [OF inv]) simp_all
next
  case TriggerRecompile
  show ?thesis unfolding TriggerRecompile
    by (rule cacheKeysInv_shrink [OF inv]) simp_all
next
  case (Evict k)
  show ?thesis unfolding Evict
    by (rule cacheKeysInv_shrink [OF inv]) (auto simp: evict_def split: if_splits)
qed

lemma cacheKeys_reachable:
  "cacheKeysInv (set (everReported cfgs ops)) (run ops (newTypeScriptWatchManager cfgs mb))"
proof (induction ops rule: rev_induct)
  case Nil
  show ?case by (simp add: cacheKeysInv_def newTypeScriptWatchManager_def newDiagnosticCache_def)
next
  case (snoc op ops)
  have "cacheKeysInv (set (everReported cfgs ops)
          \<union> set (filesOfOperation (configs (run ops (newTypeScriptWatchManager cfgs mb))) op))
        (step op (run ops (newTypeScriptWatchManager cfgs mb)))"
    using storeInv_reachable snoc by (rule cacheKeysInv_step)
  moreover have "configs (newTypeScriptWatchManager cfgs mb) = cfgs"
    by (simp add: newTypeScriptWatchManager_def)
  ultimately show ?case
    by (simp add: run_snoc everReported_def Un_commute)
qed

lemma lookupCached_all_miss:
  "(\<And>c. c \<in> set cs \<Longrightarrow> map_of (entries ca) (cacheKey (configPath c) p) = None) \<Longrightarrow>
   fst (lookupCached p cs ds ca) = ds"
proof (induction cs arbitrary: ca)
  case Nil
  then show ?case by simp
next
  case (Cons c cs)
  have miss: "map_of (entries ca) (cacheKey (configPath c) p) = None"
    using Cons.prems by simp
  then have g: "cache_get (cacheKey (configPath c) p) ca
      = (None, ca\<lparr> stats_misses := stats_misses ca + 1 \<rparr>)"
    by (simp add: cache_get_def)
  have "fst (lookupCached p cs ds (ca\<lparr> stats_misses := stats_misses ca + 1 \<rparr>)) = ds"
    using Cons.prems by (intro Cons.IH) simp
  then show ?case using g by simp
qed

lemma getFileDiagnostics_all_miss:
  assumes "\<And>c. c \<in> set (configs s) \<Longrightarrow>
            map_of (entries (cache s)) (cacheKey (configPath c) p) = None"
  shows "fst (getFileDiagnostics p now s) =
           \<lparr> timestamp = now, totalErrors = 0, totalWarnings = 0, totalSuggestions = 0,
             totalMessages = 0, diagnostics = [], cacheHit = False, source = p \<rparr>"
proof -
  have "fst (lookupCached p (configs s) [] (cache s)) = []"
    using assms by (rule lookupCached_all_miss)
  then show ?thesis
    by (cases "lookupCached p (configs s) [] (cache s)")
      (simp add: getFileDiagnostics_def buildDiagnosticResult_def countCategory_def)
qed

lemma never_reported_not_cached:
  assumes u: "keysUnambiguous cfgs" and n: "p \<notin> set (everReported cfgs ops)"
    and c: "c \<in> set cfgs"
  shows "map_of (entries (cache (run ops (newTypeScriptWatchManager cfgs mb))))
           (cacheKey (configPath c) p) = None"
proof (rule ccontr)
  assume "map_of (entries (cache (run ops (newTypeScriptWatchManager cfgs mb))))
           (cacheKey (configPath c) p) \<noteq> None"
  then obtain e where "map_of (entries (cache (run ops (newTypeScriptWatchManager cfgs mb))))
           (cacheKey (configPath c) p) = Some e" by auto
  then obtain cp f where k: "cacheKey (configPath c) p = cacheKey cp f"
    and cp: "cp \<in> configPath ` set cfgs" and f: "f \<in> set (everReported cfgs ops)"
    using cacheKeys_reachable [of cfgs ops mb]
    by (auto simp: cacheKeysInv_def newTypeScriptWatchManager_def)
  have "configPath c \<in> configPath ` set cfgs" using c by simp
  then have "p = f" using cacheKey_unambiguous [OF u _ cp k] by simp
  then show False using n f by simp
qed

subsection \<open>Passes\<close>

lemma run_reports: "run (map (Report c) evs) s = fold (deliver c) evs s"
  by (induction evs arbitrary: s) (simp_all add: run_def)

lemma reportedFor_append [simp]:
  "reportedFor f (xs @ ys) = reportedFor f xs @ reportedFor f ys"
proof (induction xs)
  case Nil
  show ?case by simp
next
  case (Cons a xs)
  then show ?case by (cases a) simp_all
qed

lemma project_index_kept:
  "map_of (diagnosticsByConfig s) cp \<noteq> None \<Longrightarrow>
   map_of (diagnosticsByConfig (deliver c ev s)) cp \<noteq> None"
  by (cases ev) (auto simp: map_of_store_onDiagnostic split: option.splits)

lemma bucketOf_fold_deliver:
  assumes "map_of (diagnosticsByConfig s) (configPath c) \<noteq> None"
  shows "bucketOf (configPath c) f (fold (deliver c) evs s) =
           (if reportedFor f evs = [] then bucketOf (configPath c) f s
            else Some ((case bucketOf (configPath c) f s of None \<Rightarrow> [] | Some b \<Rightarrow> b)
                        @ reportedFor f evs))"
  using assms
proof (induction evs arbitrary: s)
  case Nil
  show ?case by simp
next
  case (Cons ev evs)
  have kept: "map_of (diagnosticsByConfig (deliver c ev s)) (configPath c) \<noteq> None"
    using Cons.prems by (rule project_index_kept)
  note ih = Cons.IH [OF kept]
  show ?case
  proof (cases ev)
    case (ReportWatchStatus m now)
    then show ?thesis using ih by simp
  next
    case (ReportDiagnostic d now)
    then show ?thesis
      using ih Cons.prems by (auto simp: bucketOf_onDiagnostic split: option.splits)
  qed
qed

subsection \<open>Evaluation\<close>

text \<open>The definitions that evaluate a concrete run of the manager.\<close>

lemmas manager_eval =
  run_def start_def startWatchingConfig_def stop_def newTypeScriptWatchManager_def
  onDiagnostic_def onWatchStatusChange_def emit_def convertDiagnostic_def cache_set_def
  cache_get_def cache_delete_def cache_clear_def evict_def dispose_def newDiagnosticCache_def
  touch_def evictOldest_def
  cacheKey_def getAllDiagnosticsForConfig_def countCategory_def getStatus_def
  getTotalFilesWatched_def clearFileDiagnostics_def clearAllDiagnostics_def
  getFileDiagnostics_def getAllDiagnostics_def buildDiagnosticResult_def bucketOf_def
  cachedFor_def Let_def

section \<open>Properties of the conversion and of the ignore filter\<close>

lemma convertDiagnostic_line:
  "ts_file d = Some f \<Longrightarrow>
   line (convertDiagnostic d) =
     (let l = lc_line (getLineAndCharacterOfPosition f
                (case ts_start d of None \<Rightarrow> 0 | Some n \<Rightarrow> n))
      in if l = 0 then 0 else l + 1)"
  by (simp add: convertDiagnostic_def Let_def)

lemma convertDiagnostic_column:
  "ts_file d = Some f \<Longrightarrow>
   column (convertDiagnostic d) =
     (let ch = lc_character (getLineAndCharacterOfPosition f
                (case ts_start d of None \<Rightarrow> 0 | Some n \<Rightarrow> n))
      in if ch = 0 then 0 else ch + 1)"
  by (simp add: convertDiagnostic_def Let_def)

text \<open>
  C3, at the input the claim singles out. A compiler diagnostic that carries a source
  file and sits at the first line and first character of it (0-based line 0, character
  0) is converted to line 0 and column 0, not to line 1 and column 1: the conversion
  adds one only to a position that is not zero.
\<close>

theorem convertDiagnostic_first_position:
  "(let d = \<lparr> ts_file = Some \<lparr> fileName = ''src/a.ts'',
                   getLineAndCharacterOfPosition = (\<lambda>p. \<lparr> lc_line = 0, lc_character = 0 \<rparr>) \<rparr>,
               ts_start = Some 0, ts_length = Some 1, ts_category = 1, ts_code = 2322,
               ts_messageText = ''Type mismatch'' \<rparr>
    in line (convertDiagnostic d) = 0 \<and> column (convertDiagnostic d) = 0)"
  by (simp add: convertDiagnostic_def)

lemma globToRegexSource_node_modules:
  "globToRegexSource ''**/node_modules/**'' = ''^**/node_modules/**$''"
  by (simp add: globToRegexSource_def regexSpecial_def)

text \<open>
  C2, at the input the claim singles out. For the default deny-list entry
  \<open>**/node_modules/**\<close> (the first of the default patterns) the translation produces
  the pattern text \<open>^**/node_modules/**$\<close>: the stars are neither escaped nor replaced,
  so no fragment \<open>.*\<close> or \<open>[^/]*\<close> appears. What \<open>shouldIgnoreFile\<close> answers for
  \<open>a/node_modules/b/c.ts\<close> is therefore whatever the regular-expression constructor
  makes of that text: its error if it rejects the text, else the test of the path.
\<close>

theorem globToRegex_node_modules_source:
  "globToRegexSource ''**/node_modules/**'' = ''^**/node_modules/**$''
   \<and> hd DEFAULT_IGNORE_PATTERNS = ''**/node_modules/**''
   \<and> shouldIgnoreFile rx ''a/node_modules/b/c.ts'' [''**/node_modules/**''] =
       (case rx ''^**/node_modules/**$'' of
          Inl e \<Rightarrow> Inl e
        | Inr test \<Rightarrow> Inr (test ''a/node_modules/b/c.ts''))"
  by (simp add: globToRegexSource_node_modules shouldIgnoreFile_def
      matchesPattern_def DEFAULT_IGNORE_PATTERNS_def split: sum.splits bool.splits)

section \<open>Properties of the cache statistics\<close>

text \<open>
  C7. \<open>getStats\<close> reports a hit rate of 0 when no request has been counted, and
  hits divided by hits plus misses otherwise. From fresh statistics, one lookup that
  hits and one that misses, in either order, give a hit rate of one half.
\<close>

theorem getStats_hitRate:
  "(stats_hits c + stats_misses c = 0 \<longrightarrow> hitRate (getStats c) = 0)
   \<and> (stats_hits c + stats_misses c \<noteq> 0 \<longrightarrow>
        hitRate (getStats c) = real (stats_hits c) / real (stats_hits c + stats_misses c))
   \<and> (stats_hits c = 0 \<and> stats_misses c = 0 \<and> map_of (entries c) k1 \<noteq> None
        \<and> map_of (entries c) k2 = None \<longrightarrow>
        hitRate (getStats (snd (cache_get k2 (snd (cache_get k1 c))))) = 0.5
        \<and> hitRate (getStats (snd (cache_get k1 (snd (cache_get k2 c))))) = 0.5)"
  by (auto simp: getStats_def cache_get_def Let_def map_of_touch split: option.splits)

theorem getStats_hitRate_witness:
  "hitRate (getStats (newDiagnosticCache 100)) = 0
   \<and> hitRate (getStats (snd (cache_get ''p:g'' (snd (cache_get ''p:f''
        (cache_set ''p:f'' [] 0 None (newDiagnosticCache 100))))))) = 0.5
   \<and> hitRate (getStats \<lparr> entries = [], maxItems = 1, stats_hits = 3, stats_misses = 1,
        stats_evictions = 0 \<rparr>) = 3 / 4"
  using getStats_hitRate [of "newDiagnosticCache 100"]
    getStats_hitRate [of "cache_set ''p:f'' [] 0 None (newDiagnosticCache 100)" "''p:f''" "''p:g''"]
    getStats_hitRate [of "\<lparr> entries = [], maxItems = 1, stats_hits = 3, stats_misses = 1,
        stats_evictions = 0 \<rparr>"]
  by (simp add: newDiagnosticCache_def cache_set_def touch_def)

section \<open>Properties of the package query\<close>

lemma find_None_iff_all:
  "(find P xs = None) = (\<forall>x \<in> set xs. \<not> P x)"
  by (induction xs) auto

lemma find_Some_holds:
  "find P xs = Some x \<Longrightarrow> x \<in> set xs \<and> P x"
  by (induction xs) (auto split: if_splits)

text \<open>
  C6. \<open>getPackageDiagnostics\<close> returns the absent value exactly when no configured
  project carries the name. For a configured project of that name (the first one, as
  \<open>find\<close> picks it) with no stored diagnostics, it returns a present result with an
  empty list and all four totals zero. The function has no raising branch: its result
  type is an optional result.
\<close>

theorem getPackageDiagnostics_absent_iff_unknown:
  "(getPackageDiagnostics packageName now s = None
      \<longleftrightarrow> (\<forall>c \<in> set (configs s). name c \<noteq> Some packageName))
   \<and> (find (\<lambda>c. name c = Some packageName) (configs s) = Some config
        \<and> getAllDiagnosticsForConfig (configPath config) s = [] \<longrightarrow>
        getPackageDiagnostics packageName now s =
          Some \<lparr> timestamp = now, totalErrors = 0, totalWarnings = 0, totalSuggestions = 0,
                 totalMessages = 0, diagnostics = [], cacheHit = True,
                 source = packageName \<rparr>)"
  by (auto simp: getPackageDiagnostics_def find_None_iff_all buildDiagnosticResult_def
      countCategory_def dest: find_Some_holds split: option.splits)

theorem getPackageDiagnostics_absent_iff_unknown_witness:
  "getPackageDiagnostics ''missing'' 7
      (newTypeScriptWatchManager [\<lparr> configPath = ''/w/app/tsconfig.json'', name = Some ''app'',
          rootDir = Some ''/w/app'' \<rparr>] 100) = None
   \<and> getPackageDiagnostics ''app'' 7
      (newTypeScriptWatchManager [\<lparr> configPath = ''/w/app/tsconfig.json'', name = Some ''app'',
          rootDir = Some ''/w/app'' \<rparr>] 100) =
        Some \<lparr> timestamp = 7, totalErrors = 0, totalWarnings = 0, totalSuggestions = 0,
               totalMessages = 0, diagnostics = [], cacheHit = True, source = ''app'' \<rparr>"
  using getPackageDiagnostics_absent_iff_unknown [where packageName = "''missing''" and now = 7
      and s = "newTypeScriptWatchManager [\<lparr> configPath = ''/w/app/tsconfig.json'',
          name = Some ''app'', rootDir = Some ''/w/app'' \<rparr>] 100"]
    getPackageDiagnostics_absent_iff_unknown [where packageName = "''app''" and now = 7
      and s = "newTypeScriptWatchManager [\<lparr> configPath = ''/w/app/tsconfig.json'',
          name = Some ''app'', rootDir = Some ''/w/app'' \<rparr>] 100"
      and config = "\<lparr> configPath = ''/w/app/tsconfig.json'', name = Some ''app'',
          rootDir = Some ''/w/app'' \<rparr>"]
  by (simp add: newTypeScriptWatchManager_def getAllDiagnosticsForConfig_def)

section \<open>Properties of workspace detection\<close>



section \<open>Properties of the manager's life cycle\<close>

text \<open>
  C8, with the sessions counted in full where the configuration paths differ. In every
  state the manager can reach from its construction (by starts with any host, whichever
  projects those starts could open, session reports, queries, clears, stops and cache
  evictions), a call of \<open>stop\<close> leaves the session table empty and the status inactive,
  and every session that the table held has been closed; when the configured projects
  have pairwise different configuration paths, every session ever opened has then been
  closed. A second call changes nothing: the state after it, with its store, cache and
  statistics, is the state after the first.
\<close>

theorem stop_idempotent:
  "watchers (stop (run ops (newTypeScriptWatchManager cfgs mb))) = []
   \<and> \<not> active (getStatus (stop (run ops (newTypeScriptWatchManager cfgs mb))))
   \<and> set (map snd (watchers (run ops (newTypeScriptWatchManager cfgs mb))))
        \<subseteq> set (closedWatchers (stop (run ops (newTypeScriptWatchManager cfgs mb))))
   \<and> (distinct (map configPath cfgs) \<longrightarrow>
        set [0..<nextWatcher (stop (run ops (newTypeScriptWatchManager cfgs mb)))]
          = set (closedWatchers (stop (run ops (newTypeScriptWatchManager cfgs mb)))))
   \<and> stop (stop (run ops (newTypeScriptWatchManager cfgs mb)))
        = stop (run ops (newTypeScriptWatchManager cfgs mb))"
proof -
  have "distinct (map configPath cfgs) \<Longrightarrow>
        set [0..<nextWatcher (stop (run ops (newTypeScriptWatchManager cfgs mb)))]
          = set (closedWatchers (stop (run ops (newTypeScriptWatchManager cfgs mb))))"
  proof -
    assume d: "distinct (map configPath cfgs)"
    have "openedInv (step Stop (run ops (newTypeScriptWatchManager cfgs mb)))"
      using openedInv_reachable [OF d, of "ops @ [Stop]" mb] by (simp add: run_snoc)
    moreover have "watchers (stop (run ops (newTypeScriptWatchManager cfgs mb))) = []"
      using sessionsInv_reachable [of ops cfgs mb] by (auto simp: sessionsInv_def stop_def emit_def)
    ultimately show ?thesis by (simp add: openedInv_def)
  qed
  then show ?thesis
    using sessionsInv_reachable [of ops cfgs mb]
    by (auto simp: sessionsInv_def stop_def getStatus_def emit_def)
qed

theorem stop_idempotent_witness:
  "distinct (map configPath
          [\<lparr> configPath = ''/w/app/tsconfig.json'', name = Some ''app'', rootDir = None \<rparr>,
           \<lparr> configPath = ''/w/lib/tsconfig.json'', name = Some ''lib'', rootDir = None \<rparr>])
   \<and> watchers (run [Start \<lparr> existsSync = (\<lambda>p. p = ''/w/app/tsconfig.json''),
                          initialBuild = (\<lambda>c. []) \<rparr>]
       (newTypeScriptWatchManager
          [\<lparr> configPath = ''/w/app/tsconfig.json'', name = Some ''app'', rootDir = None \<rparr>,
           \<lparr> configPath = ''/w/lib/tsconfig.json'', name = Some ''lib'', rootDir = None \<rparr>] 100))
     = [(''/w/app/tsconfig.json'', 0)]
   \<and> watchers (stop (run [Start \<lparr> existsSync = (\<lambda>p. p = ''/w/app/tsconfig.json''),
                          initialBuild = (\<lambda>c. []) \<rparr>]
       (newTypeScriptWatchManager
          [\<lparr> configPath = ''/w/app/tsconfig.json'', name = Some ''app'', rootDir = None \<rparr>,
           \<lparr> configPath = ''/w/lib/tsconfig.json'', name = Some ''lib'', rootDir = None \<rparr>] 100)))
     = []
   \<and> closedWatchers (stop (run [Start \<lparr> existsSync = (\<lambda>p. p = ''/w/app/tsconfig.json''),
                          initialBuild = (\<lambda>c. []) \<rparr>]
       (newTypeScriptWatchManager
          [\<lparr> configPath = ''/w/app/tsconfig.json'', name = Some ''app'', rootDir = None \<rparr>,
           \<lparr> configPath = ''/w/lib/tsconfig.json'', name = Some ''lib'', rootDir = None \<rparr>] 100)))
     = [0]
   \<and> nextWatcher (stop (run [Start \<lparr> existsSync = (\<lambda>p. p = ''/w/app/tsconfig.json''),
                          initialBuild = (\<lambda>c. []) \<rparr>]
       (newTypeScriptWatchManager
          [\<lparr> configPath = ''/w/app/tsconfig.json'', name = Some ''app'', rootDir = None \<rparr>,
           \<lparr> configPath = ''/w/lib/tsconfig.json'', name = Some ''lib'', rootDir = None \<rparr>] 100)))
     = 1
   \<and> stop (stop (run [Start \<lparr> existsSync = (\<lambda>p. p = ''/w/app/tsconfig.json''),
                          initialBuild = (\<lambda>c. []) \<rparr>]
       (newTypeScriptWatchManager
          [\<lparr> configPath = ''/w/app/tsconfig.json'', name = Some ''app'', rootDir = None \<rparr>,
           \<lparr> configPath = ''/w/lib/tsconfig.json'', name = Some ''lib'', rootDir = None \<rparr>] 100)))
     = stop (run [Start \<lparr> existsSync = (\<lambda>p. p = ''/w/app/tsconfig.json''),
                          initialBuild = (\<lambda>c. []) \<rparr>]
       (newTypeScriptWatchManager
          [\<lparr> configPath = ''/w/app/tsconfig.json'', name = Some ''app'', rootDir = None \<rparr>,
           \<lparr> configPath = ''/w/lib/tsconfig.json'', name = Some ''lib'', rootDir = None \<rparr>] 100))"
proof -
  have run1: "run [Start \<lparr> existsSync = (\<lambda>p. p = ''/w/app/tsconfig.json''),
                          initialBuild = (\<lambda>c. []) \<rparr>]
       (newTypeScriptWatchManager
          [\<lparr> configPath = ''/w/app/tsconfig.json'', name = Some ''app'', rootDir = None \<rparr>,
           \<lparr> configPath = ''/w/lib/tsconfig.json'', name = Some ''lib'', rootDir = None \<rparr>] 100)
     = \<lparr> watchers = [(''/w/app/tsconfig.json'', 0)],
         diagnosticsByConfig = [(''/w/app/tsconfig.json'', [])],
         cache = newDiagnosticCache 100, isActive = True, lastCompilation = None,
         configs = [\<lparr> configPath = ''/w/app/tsconfig.json'', name = Some ''app'', rootDir = None \<rparr>,
           \<lparr> configPath = ''/w/lib/tsconfig.json'', name = Some ''lib'', rootDir = None \<rparr>],
         emittedEvents = [started 2], nextWatcher = 1, closedWatchers = [] \<rparr>"
    by (simp add: run_def start_def startWatchingConfig_def newTypeScriptWatchManager_def
        emit_def Let_def)
  show ?thesis
    unfolding run1
    using stop_idempotent [of "[Start \<lparr> existsSync = (\<lambda>p. p = ''/w/app/tsconfig.json''),
                          initialBuild = (\<lambda>c. []) \<rparr>]"
        "[\<lparr> configPath = ''/w/app/tsconfig.json'', name = Some ''app'', rootDir = None \<rparr>,
           \<lparr> configPath = ''/w/lib/tsconfig.json'', name = Some ''lib'', rootDir = None \<rparr>]" 100]
    unfolding run1
    by (simp add: stop_def emit_def)
qed

text \<open>
  C8 as stated fails when two configured projects share a configuration path: the start
  opens a session for each, the second takes the first one's place in the session table,
  and \<open>stop\<close> closes the second only. Two sessions have been opened (numbers 0 and 1);
  after \<open>stop\<close> only session 1 has been closed.
\<close>

theorem stop_leaves_overwritten_session_open:
  "watchers
     (run [Start \<lparr> existsSync = (\<lambda>p. True), initialBuild = (\<lambda>c. []) \<rparr>]
        (newTypeScriptWatchManager
           [\<lparr> configPath = ''/w/tsconfig.json'', name = Some ''app'', rootDir = None \<rparr>,
            \<lparr> configPath = ''/w/tsconfig.json'', name = Some ''tests'', rootDir = None \<rparr>] 100))
   = [(''/w/tsconfig.json'', 1)]
   \<and> nextWatcher (stop
     (run [Start \<lparr> existsSync = (\<lambda>p. True), initialBuild = (\<lambda>c. []) \<rparr>]
        (newTypeScriptWatchManager
           [\<lparr> configPath = ''/w/tsconfig.json'', name = Some ''app'', rootDir = None \<rparr>,
            \<lparr> configPath = ''/w/tsconfig.json'', name = Some ''tests'', rootDir = None \<rparr>] 100)))
   = 2
   \<and> closedWatchers (stop
     (run [Start \<lparr> existsSync = (\<lambda>p. True), initialBuild = (\<lambda>c. []) \<rparr>]
        (newTypeScriptWatchManager
           [\<lparr> configPath = ''/w/tsconfig.json'', name = Some ''app'', rootDir = None \<rparr>,
            \<lparr> configPath = ''/w/tsconfig.json'', name = Some ''tests'', rootDir = None \<rparr>] 100)))
   = [1]
   \<and> 0 \<notin> set (closedWatchers (stop
     (run [Start \<lparr> existsSync = (\<lambda>p. True), initialBuild = (\<lambda>c. []) \<rparr>]
        (newTypeScriptWatchManager
           [\<lparr> configPath = ''/w/tsconfig.json'', name = Some ''app'', rootDir = None \<rparr>,
            \<lparr> configPath = ''/w/tsconfig.json'', name = Some ''tests'', rootDir = None \<rparr>] 100))))"
  by (simp add: manager_eval)

text \<open>
  C10, with the starts after which the number is 0 named. In every reachable state the
  status reports as watched files the number of file paths that hold a bucket in the
  store, summed over the projects of the store; files under watch that hold no bucket do
  not count. Right after the first start of a new manager, right after a start of a
  stopped manager whose configuration files are all there, and after
  \<open>clearAllDiagnostics\<close> in any state, the number is 0, also while the manager is
  active.
\<close>

theorem watchedFiles_counts_buckets:
  "watchedFiles (getStatus (run ops (newTypeScriptWatchManager cfgs mb))) =
     (\<Sum>cp \<leftarrow> map fst (diagnosticsByConfig (run ops (newTypeScriptWatchManager cfgs mb))).
        card {f. bucketOf cp f (run ops (newTypeScriptWatchManager cfgs mb)) \<noteq> None})
   \<and> watchedFiles (getStatus (start h (newTypeScriptWatchManager cfgs mb))) = 0
   \<and> active (getStatus (start h (newTypeScriptWatchManager cfgs mb)))
   \<and> (\<not> isActive (run ops (newTypeScriptWatchManager cfgs mb))
        \<and> (\<forall>c \<in> set cfgs. existsSync h (configPath c)) \<longrightarrow>
        watchedFiles (getStatus (start h (run ops (newTypeScriptWatchManager cfgs mb)))) = 0
        \<and> active (getStatus (start h (run ops (newTypeScriptWatchManager cfgs mb)))))
   \<and> watchedFiles (getStatus (clearAllDiagnostics s)) = 0
   \<and> active (getStatus (clearAllDiagnostics s)) = active (getStatus s)"
proof -
  have e: "allEmpty (newTypeScriptWatchManager cfgs mb)"
    and i: "\<not> isActive (newTypeScriptWatchManager cfgs mb)"
    by (simp_all add: allEmpty_def newTypeScriptWatchManager_def)
  have c: "configs (run ops (newTypeScriptWatchManager cfgs mb)) = cfgs"
    by (simp add: newTypeScriptWatchManager_def)
  have r: "\<not> isActive (run ops (newTypeScriptWatchManager cfgs mb))
        \<and> (\<forall>c \<in> set cfgs. existsSync h (configPath c)) \<longrightarrow>
        getTotalFilesWatched (start h (run ops (newTypeScriptWatchManager cfgs mb))) = 0
        \<and> isActive (start h (run ops (newTypeScriptWatchManager cfgs mb)))"
    using restart_all_empty [OF storeInv_reachable, of ops cfgs mb h] c by simp
  show ?thesis
    using getTotalFilesWatched_card [OF storeInv_reachable, of ops cfgs mb]
      allEmpty_start [OF e i, of h] allEmpty_total [of "start h (newTypeScriptWatchManager cfgs mb)"]
      r
    by (simp add: getStatus_def)
qed

theorem watchedFiles_counts_buckets_witness:
  "watchedFiles (getStatus
      (run [Start \<lparr> existsSync = (\<lambda>p. True), initialBuild = (\<lambda>c. []) \<rparr>,
            Report \<lparr> configPath = ''/w/tsconfig.json'', name = Some ''app'', rootDir = None \<rparr>
              (ReportDiagnostic
                 \<lparr> ts_file = Some \<lparr> fileName = ''/w/a.ts'',
                       getLineAndCharacterOfPosition = (\<lambda>p. \<lparr> lc_line = 3, lc_character = 7 \<rparr>) \<rparr>,
                   ts_start = Some 40, ts_length = Some 1, ts_category = 1, ts_code = 2322,
                   ts_messageText = ''Type mismatch'' \<rparr> 5)]
        (newTypeScriptWatchManager
           [\<lparr> configPath = ''/w/tsconfig.json'', name = Some ''app'', rootDir = None \<rparr>] 100))) = 1
   \<and> watchedFiles (getStatus
      (start \<lparr> existsSync = (\<lambda>p. True), initialBuild = (\<lambda>c. []) \<rparr>
        (newTypeScriptWatchManager
           [\<lparr> configPath = ''/w/tsconfig.json'', name = Some ''app'', rootDir = None \<rparr>] 100))) = 0
   \<and> active (getStatus
      (start \<lparr> existsSync = (\<lambda>p. True), initialBuild = (\<lambda>c. []) \<rparr>
        (newTypeScriptWatchManager
           [\<lparr> configPath = ''/w/tsconfig.json'', name = Some ''app'', rootDir = None \<rparr>] 100)))
   \<and> watchedFiles (getStatus
      (run [Start \<lparr> existsSync = (\<lambda>p. True), initialBuild = (\<lambda>c. []) \<rparr>,
            Report \<lparr> configPath = ''/w/tsconfig.json'', name = Some ''app'', rootDir = None \<rparr>
              (ReportDiagnostic
                 \<lparr> ts_file = Some \<lparr> fileName = ''/w/a.ts'',
                       getLineAndCharacterOfPosition = (\<lambda>p. \<lparr> lc_line = 3, lc_character = 7 \<rparr>) \<rparr>,
                   ts_start = Some 40, ts_length = Some 1, ts_category = 1, ts_code = 2322,
                   ts_messageText = ''Type mismatch'' \<rparr> 5),
            Stop]
        (newTypeScriptWatchManager
           [\<lparr> configPath = ''/w/tsconfig.json'', name = Some ''app'', rootDir = None \<rparr>] 100))) = 1
   \<and> watchedFiles (getStatus
      (start \<lparr> existsSync = (\<lambda>p. True), initialBuild = (\<lambda>c. []) \<rparr>
        (run [Start \<lparr> existsSync = (\<lambda>p. True), initialBuild = (\<lambda>c. []) \<rparr>,
            Report \<lparr> configPath = ''/w/tsconfig.json'', name = Some ''app'', rootDir = None \<rparr>
              (ReportDiagnostic
                 \<lparr> ts_file = Some \<lparr> fileName = ''/w/a.ts'',
                       getLineAndCharacterOfPosition = (\<lambda>p. \<lparr> lc_line = 3, lc_character = 7 \<rparr>) \<rparr>,
                   ts_start = Some 40, ts_length = Some 1, ts_category = 1, ts_code = 2322,
                   ts_messageText = ''Type mismatch'' \<rparr> 5),
            Stop]
        (newTypeScriptWatchManager
           [\<lparr> configPath = ''/w/tsconfig.json'', name = Some ''app'', rootDir = None \<rparr>] 100)))) = 0"
proof -
  have one: "watchedFiles (getStatus
      (run [Start \<lparr> existsSync = (\<lambda>p. True), initialBuild = (\<lambda>c. []) \<rparr>,
            Report \<lparr> configPath = ''/w/tsconfig.json'', name = Some ''app'', rootDir = None \<rparr>
              (ReportDiagnostic
                 \<lparr> ts_file = Some \<lparr> fileName = ''/w/a.ts'',
                       getLineAndCharacterOfPosition = (\<lambda>p. \<lparr> lc_line = 3, lc_character = 7 \<rparr>) \<rparr>,
                   ts_start = Some 40, ts_length = Some 1, ts_category = 1, ts_code = 2322,
                   ts_messageText = ''Type mismatch'' \<rparr> 5)]
        (newTypeScriptWatchManager
           [\<lparr> configPath = ''/w/tsconfig.json'', name = Some ''app'', rootDir = None \<rparr>] 100))) = 1"
    by (simp add: manager_eval)
  have stopped: "watchedFiles (getStatus
      (run [Start \<lparr> existsSync = (\<lambda>p. True), initialBuild = (\<lambda>c. []) \<rparr>,
            Report \<lparr> configPath = ''/w/tsconfig.json'', name = Some ''app'', rootDir = None \<rparr>
              (ReportDiagnostic
                 \<lparr> ts_file = Some \<lparr> fileName = ''/w/a.ts'',
                       getLineAndCharacterOfPosition = (\<lambda>p. \<lparr> lc_line = 3, lc_character = 7 \<rparr>) \<rparr>,
                   ts_start = Some 40, ts_length = Some 1, ts_category = 1, ts_code = 2322,
                   ts_messageText = ''Type mismatch'' \<rparr> 5),
            Stop]
        (newTypeScriptWatchManager
           [\<lparr> configPath = ''/w/tsconfig.json'', name = Some ''app'', rootDir = None \<rparr>] 100))) = 1
    \<and> \<not> isActive
      (run [Start \<lparr> existsSync = (\<lambda>p. True), initialBuild = (\<lambda>c. []) \<rparr>,
            Report \<lparr> configPath = ''/w/tsconfig.json'', name = Some ''app'', rootDir = None \<rparr>
              (ReportDiagnostic
                 \<lparr> ts_file = Some \<lparr> fileName = ''/w/a.ts'',
                       getLineAndCharacterOfPosition = (\<lambda>p. \<lparr> lc_line = 3, lc_character = 7 \<rparr>) \<rparr>,
                   ts_start = Some 40, ts_length = Some 1, ts_category = 1, ts_code = 2322,
                   ts_messageText = ''Type mismatch'' \<rparr> 5),
            Stop]
        (newTypeScriptWatchManager
           [\<lparr> configPath = ''/w/tsconfig.json'', name = Some ''app'', rootDir = None \<rparr>] 100))"
    by (simp add: manager_eval)
  show ?thesis
    using one stopped
      watchedFiles_counts_buckets [where ops = "[Start \<lparr> existsSync = (\<lambda>p. True), initialBuild = (\<lambda>c. []) \<rparr>,
            Report \<lparr> configPath = ''/w/tsconfig.json'', name = Some ''app'', rootDir = None \<rparr>
              (ReportDiagnostic
                 \<lparr> ts_file = Some \<lparr> fileName = ''/w/a.ts'',
                       getLineAndCharacterOfPosition = (\<lambda>p. \<lparr> lc_line = 3, lc_character = 7 \<rparr>) \<rparr>,
                   ts_start = Some 40, ts_length = Some 1, ts_category = 1, ts_code = 2322,
                   ts_messageText = ''Type mismatch'' \<rparr> 5),
            Stop]"
        and cfgs = "[\<lparr> configPath = ''/w/tsconfig.json'', name = Some ''app'', rootDir = None \<rparr>]" and mb = 100
        and h = "\<lparr> existsSync = (\<lambda>p. True), initialBuild = (\<lambda>c. []) \<rparr>"]
    by simp
qed

text \<open>
  C10 as stated fails for a start of a stopped manager whose configuration file is gone:
  the start skips the project before its map would be emptied, so the bucket of the
  earlier session stays. The manager is active, holds no session, and reports one
  watched file.
\<close>

theorem restart_without_config_keeps_buckets:
  "active (getStatus
     (run [Start \<lparr> existsSync = (\<lambda>p. True), initialBuild = (\<lambda>c. []) \<rparr>,
           Report \<lparr> configPath = ''/w/tsconfig.json'', name = Some ''app'', rootDir = None \<rparr>
             (ReportDiagnostic
                \<lparr> ts_file = Some \<lparr> fileName = ''/w/a.ts'',
                      getLineAndCharacterOfPosition = (\<lambda>p. \<lparr> lc_line = 3, lc_character = 7 \<rparr>) \<rparr>,
                  ts_start = Some 40, ts_length = Some 1, ts_category = 1, ts_code = 2322,
                  ts_messageText = ''Type mismatch'' \<rparr> 5),
           Stop,
           Start \<lparr> existsSync = (\<lambda>p. False), initialBuild = (\<lambda>c. []) \<rparr>]
        (newTypeScriptWatchManager
           [\<lparr> configPath = ''/w/tsconfig.json'', name = Some ''app'', rootDir = None \<rparr>] 100)))
   \<and> watchers
     (run [Start \<lparr> existsSync = (\<lambda>p. True), initialBuild = (\<lambda>c. []) \<rparr>,
           Report \<lparr> configPath = ''/w/tsconfig.json'', name = Some ''app'', rootDir = None \<rparr>
             (ReportDiagnostic
                \<lparr> ts_file = Some \<lparr> fileName = ''/w/a.ts'',
                      getLineAndCharacterOfPosition = (\<lambda>p. \<lparr> lc_line = 3, lc_character = 7 \<rparr>) \<rparr>,
                  ts_start = Some 40, ts_length = Some 1, ts_category = 1, ts_code = 2322,
                  ts_messageText = ''Type mismatch'' \<rparr> 5),
           Stop,
           Start \<lparr> existsSync = (\<lambda>p. False), initialBuild = (\<lambda>c. []) \<rparr>]
        (newTypeScriptWatchManager
           [\<lparr> configPath = ''/w/tsconfig.json'', name = Some ''app'', rootDir = None \<rparr>] 100))
   = []
   \<and> watchedFiles (getStatus
     (run [Start \<lparr> existsSync = (\<lambda>p. True), initialBuild = (\<lambda>c. []) \<rparr>,
           Report \<lparr> configPath = ''/w/tsconfig.json'', name = Some ''app'', rootDir = None \<rparr>
             (ReportDiagnostic
                \<lparr> ts_file = Some \<lparr> fileName = ''/w/a.ts'',
                      getLineAndCharacterOfPosition = (\<lambda>p. \<lparr> lc_line = 3, lc_character = 7 \<rparr>) \<rparr>,
                  ts_start = Some 40, ts_length = Some 1, ts_category = 1, ts_code = 2322,
                  ts_messageText = ''Type mismatch'' \<rparr> 5),
           Stop,
           Start \<lparr> existsSync = (\<lambda>p. False), initialBuild = (\<lambda>c. []) \<rparr>]
        (newTypeScriptWatchManager
           [\<lparr> configPath = ''/w/tsconfig.json'', name = Some ''app'', rootDir = None \<rparr>] 100)))
   = 1"
  by (simp add: manager_eval)

section \<open>Properties of the store and the cache\<close>

text \<open>
  C1, at two successive passes for one file. One project, one file; the first pass
  reports an error, the status message ``Found 1 error. Watching for file changes.''
  ends it, and the second pass reports another error for the file. Afterwards the
  file's bucket holds both diagnostics, the first pass's before the second's, and is not
  the second pass's diagnostic alone; the cache entry, the result of the file query and
  the result of the query for all diagnostics hold both as well. Each report is pushed
  onto the bucket and nothing empties a bucket when a pass ends.
\<close>

theorem second_pass_keeps_first_pass_diagnostics:
  "bucketOf ''/w/tsconfig.json'' ''/w/a.ts''
     (run [Start \<lparr> existsSync = (\<lambda>p. True), initialBuild = (\<lambda>c. []) \<rparr>,
           Report \<lparr> configPath = ''/w/tsconfig.json'', name = Some ''app'', rootDir = None \<rparr>
             (ReportDiagnostic
                \<lparr> ts_file = Some \<lparr> fileName = ''/w/a.ts'',
                      getLineAndCharacterOfPosition = (\<lambda>p. \<lparr> lc_line = 1, lc_character = 4 \<rparr>) \<rparr>,
                  ts_start = Some 20, ts_length = Some 1, ts_category = 0, ts_code = 2322,
                  ts_messageText = ''first pass'' \<rparr> 1),
           Report \<lparr> configPath = ''/w/tsconfig.json'', name = Some ''app'', rootDir = None \<rparr>
             (ReportWatchStatus ''Found 1 error. Watching for file changes.'' 2),
           Report \<lparr> configPath = ''/w/tsconfig.json'', name = Some ''app'', rootDir = None \<rparr>
             (ReportDiagnostic
                \<lparr> ts_file = Some \<lparr> fileName = ''/w/a.ts'',
                      getLineAndCharacterOfPosition = (\<lambda>p. \<lparr> lc_line = 4, lc_character = 2 \<rparr>) \<rparr>,
                  ts_start = Some 61, ts_length = Some 1, ts_category = 0, ts_code = 2345,
                  ts_messageText = ''second pass'' \<rparr> 3)]
        (newTypeScriptWatchManager
           [\<lparr> configPath = ''/w/tsconfig.json'', name = Some ''app'', rootDir = None \<rparr>] 100))
   = Some [\<lparr> fileD = ''/w/a.ts'', line = 2, column = 5, category = Error, code = 2322,
             message = ''first pass'', messageText = ''first pass'', startD = Some 20, lengthD = Some 1 \<rparr>,
           \<lparr> fileD = ''/w/a.ts'', line = 5, column = 3, category = Error, code = 2345,
             message = ''second pass'', messageText = ''second pass'', startD = Some 61, lengthD = Some 1 \<rparr>]
   \<and> bucketOf ''/w/tsconfig.json'' ''/w/a.ts''
     (run [Start \<lparr> existsSync = (\<lambda>p. True), initialBuild = (\<lambda>c. []) \<rparr>,
           Report \<lparr> configPath = ''/w/tsconfig.json'', name = Some ''app'', rootDir = None \<rparr>
             (ReportDiagnostic
                \<lparr> ts_file = Some \<lparr> fileName = ''/w/a.ts'',
                      getLineAndCharacterOfPosition = (\<lambda>p. \<lparr> lc_line = 1, lc_character = 4 \<rparr>) \<rparr>,
                  ts_start = Some 20, ts_length = Some 1, ts_category = 0, ts_code = 2322,
                  ts_messageText = ''first pass'' \<rparr> 1),
           Report \<lparr> configPath = ''/w/tsconfig.json'', name = Some ''app'', rootDir = None \<rparr>
             (ReportWatchStatus ''Found 1 error. Watching for file changes.'' 2),
           Report \<lparr> configPath = ''/w/tsconfig.json'', name = Some ''app'', rootDir = None \<rparr>
             (ReportDiagnostic
                \<lparr> ts_file = Some \<lparr> fileName = ''/w/a.ts'',
                      getLineAndCharacterOfPosition = (\<lambda>p. \<lparr> lc_line = 4, lc_character = 2 \<rparr>) \<rparr>,
                  ts_start = Some 61, ts_length = Some 1, ts_category = 0, ts_code = 2345,
                  ts_messageText = ''second pass'' \<rparr> 3)]
        (newTypeScriptWatchManager
           [\<lparr> configPath = ''/w/tsconfig.json'', name = Some ''app'', rootDir = None \<rparr>] 100))
   \<noteq> Some [\<lparr> fileD = ''/w/a.ts'', line = 5, column = 3, category = Error, code = 2345,
             message = ''second pass'', messageText = ''second pass'', startD = Some 61, lengthD = Some 1 \<rparr>]
   \<and> cachedFor ''/w/tsconfig.json'' ''/w/a.ts''
     (run [Start \<lparr> existsSync = (\<lambda>p. True), initialBuild = (\<lambda>c. []) \<rparr>,
           Report \<lparr> configPath = ''/w/tsconfig.json'', name = Some ''app'', rootDir = None \<rparr>
             (ReportDiagnostic
                \<lparr> ts_file = Some \<lparr> fileName = ''/w/a.ts'',
                      getLineAndCharacterOfPosition = (\<lambda>p. \<lparr> lc_line = 1, lc_character = 4 \<rparr>) \<rparr>,
                  ts_start = Some 20, ts_length = Some 1, ts_category = 0, ts_code = 2322,
                  ts_messageText = ''first pass'' \<rparr> 1),
           Report \<lparr> configPath = ''/w/tsconfig.json'', name = Some ''app'', rootDir = None \<rparr>
             (ReportWatchStatus ''Found 1 error. Watching for file changes.'' 2),
           Report \<lparr> configPath = ''/w/tsconfig.json'', name = Some ''app'', rootDir = None \<rparr>
             (ReportDiagnostic
                \<lparr> ts_file = Some \<lparr> fileName = ''/w/a.ts'',
                      getLineAndCharacterOfPosition = (\<lambda>p. \<lparr> lc_line = 4, lc_character = 2 \<rparr>) \<rparr>,
                  ts_start = Some 61, ts_length = Some 1, ts_category = 0, ts_code = 2345,
                  ts_messageText = ''second pass'' \<rparr> 3)]
        (newTypeScriptWatchManager
           [\<lparr> configPath = ''/w/tsconfig.json'', name = Some ''app'', rootDir = None \<rparr>] 100))
   = Some [\<lparr> fileD = ''/w/a.ts'', line = 2, column = 5, category = Error, code = 2322,
             message = ''first pass'', messageText = ''first pass'', startD = Some 20, lengthD = Some 1 \<rparr>,
           \<lparr> fileD = ''/w/a.ts'', line = 5, column = 3, category = Error, code = 2345,
             message = ''second pass'', messageText = ''second pass'', startD = Some 61, lengthD = Some 1 \<rparr>]
   \<and> diagnostics (fst (getFileDiagnostics ''/w/a.ts'' 4
     (run [Start \<lparr> existsSync = (\<lambda>p. True), initialBuild = (\<lambda>c. []) \<rparr>,
           Report \<lparr> configPath = ''/w/tsconfig.json'', name = Some ''app'', rootDir = None \<rparr>
             (ReportDiagnostic
                \<lparr> ts_file = Some \<lparr> fileName = ''/w/a.ts'',
                      getLineAndCharacterOfPosition = (\<lambda>p. \<lparr> lc_line = 1, lc_character = 4 \<rparr>) \<rparr>,
                  ts_start = Some 20, ts_length = Some 1, ts_category = 0, ts_code = 2322,
                  ts_messageText = ''first pass'' \<rparr> 1),
           Report \<lparr> configPath = ''/w/tsconfig.json'', name = Some ''app'', rootDir = None \<rparr>
             (ReportWatchStatus ''Found 1 error. Watching for file changes.'' 2),
           Report \<lparr> configPath = ''/w/tsconfig.json'', name = Some ''app'', rootDir = None \<rparr>
             (ReportDiagnostic
                \<lparr> ts_file = Some \<lparr> fileName = ''/w/a.ts'',
                      getLineAndCharacterOfPosition = (\<lambda>p. \<lparr> lc_line = 4, lc_character = 2 \<rparr>) \<rparr>,
                  ts_start = Some 61, ts_length = Some 1, ts_category = 0, ts_code = 2345,
                  ts_messageText = ''second pass'' \<rparr> 3)]
        (newTypeScriptWatchManager
           [\<lparr> configPath = ''/w/tsconfig.json'', name = Some ''app'', rootDir = None \<rparr>] 100))))
   = [\<lparr> fileD = ''/w/a.ts'', line = 2, column = 5, category = Error, code = 2322,
             message = ''first pass'', messageText = ''first pass'', startD = Some 20, lengthD = Some 1 \<rparr>,
           \<lparr> fileD = ''/w/a.ts'', line = 5, column = 3, category = Error, code = 2345,
             message = ''second pass'', messageText = ''second pass'', startD = Some 61, lengthD = Some 1 \<rparr>]
   \<and> diagnostics (getAllDiagnostics 4
     (run [Start \<lparr> existsSync = (\<lambda>p. True), initialBuild = (\<lambda>c. []) \<rparr>,
           Report \<lparr> configPath = ''/w/tsconfig.json'', name = Some ''app'', rootDir = None \<rparr>
             (ReportDiagnostic
                \<lparr> ts_file = Some \<lparr> fileName = ''/w/a.ts'',
                      getLineAndCharacterOfPosition = (\<lambda>p. \<lparr> lc_line = 1, lc_character = 4 \<rparr>) \<rparr>,
                  ts_start = Some 20, ts_length = Some 1, ts_category = 0, ts_code = 2322,
                  ts_messageText = ''first pass'' \<rparr> 1),
           Report \<lparr> configPath = ''/w/tsconfig.json'', name = Some ''app'', rootDir = None \<rparr>
             (ReportWatchStatus ''Found 1 error. Watching for file changes.'' 2),
           Report \<lparr> configPath = ''/w/tsconfig.json'', name = Some ''app'', rootDir = None \<rparr>
             (ReportDiagnostic
                \<lparr> ts_file = Some \<lparr> fileName = ''/w/a.ts'',
                      getLineAndCharacterOfPosition = (\<lambda>p. \<lparr> lc_line = 4, lc_character = 2 \<rparr>) \<rparr>,
                  ts_start = Some 61, ts_length = Some 1, ts_category = 0, ts_code = 2345,
                  ts_messageText = ''second pass'' \<rparr> 3)]
        (newTypeScriptWatchManager
           [\<lparr> configPath = ''/w/tsconfig.json'', name = Some ''app'', rootDir = None \<rparr>] 100)))
   = [\<lparr> fileD = ''/w/a.ts'', line = 2, column = 5, category = Error, code = 2322,
             message = ''first pass'', messageText = ''first pass'', startD = Some 20, lengthD = Some 1 \<rparr>,
           \<lparr> fileD = ''/w/a.ts'', line = 5, column = 3, category = Error, code = 2345,
             message = ''second pass'', messageText = ''second pass'', startD = Some 61, lengthD = Some 1 \<rparr>]"
  by (simp add: manager_eval)

text \<open>
  C4, for configurations whose cache keys cannot collide. In every state the manager can
  reach from its construction, for every project and file that hold a bucket in the
  store and a list in the cache under their key, the cached list is the bucket. The
  only writes to the cache are those of \<open>onDiagnostic\<close>: it writes, after the bucket,
  the bucket it has just stored; every operation other than a start or a session report
  leaves each cache entry as it was or removes it.
\<close>

theorem store_cache_agree:
  assumes "keysUnambiguous cfgs"
  shows "(\<forall>cp f b ds.
            bucketOf cp f (run ops (newTypeScriptWatchManager cfgs mb)) = Some b
            \<and> cachedFor cp f (run ops (newTypeScriptWatchManager cfgs mb)) = Some ds
            \<longrightarrow> ds = b)
    \<and> (\<forall>c d now s. map_of (diagnosticsByConfig s) (configPath c) \<noteq> None \<longrightarrow>
           bucketOf (configPath c) (fileD (convertDiagnostic d)) (onDiagnostic c d now s) \<noteq> None
           \<and> cachedFor (configPath c) (fileD (convertDiagnostic d)) (onDiagnostic c d now s)
               = bucketOf (configPath c) (fileD (convertDiagnostic d)) (onDiagnostic c d now s))
    \<and> (\<forall>op s k e. (\<forall>h. op \<noteq> Start h) \<and> (\<forall>c ev. op \<noteq> Report c ev)
           \<and> map_of (entries (cache (step op s))) k = Some e
           \<longrightarrow> map_of (entries (cache s)) k = Some e)"
proof (intro conjI)
  show "\<forall>cp f b ds.
            bucketOf cp f (run ops (newTypeScriptWatchManager cfgs mb)) = Some b
            \<and> cachedFor cp f (run ops (newTypeScriptWatchManager cfgs mb)) = Some ds
            \<longrightarrow> ds = b"
    using agree_reachable [OF assms, of ops mb] by (auto simp: agreeInv_def cachedFor_def)
  show "\<forall>c d now s. map_of (diagnosticsByConfig s) (configPath c) \<noteq> None \<longrightarrow>
           bucketOf (configPath c) (fileD (convertDiagnostic d)) (onDiagnostic c d now s) \<noteq> None
           \<and> cachedFor (configPath c) (fileD (convertDiagnostic d)) (onDiagnostic c d now s)
               = bucketOf (configPath c) (fileD (convertDiagnostic d)) (onDiagnostic c d now s)"
    by (simp add: bucketOf_onDiagnostic cachedFor_def cached_onDiagnostic_written)
  show "\<forall>op s k e. (\<forall>h. op \<noteq> Start h) \<and> (\<forall>c ev. op \<noteq> Report c ev)
           \<and> map_of (entries (cache (step op s))) k = Some e
           \<longrightarrow> map_of (entries (cache s)) k = Some e"
    using cache_only_shrinks by blast
qed

theorem store_cache_agree_witness:
  "keysUnambiguous [\<lparr> configPath = ''/w/app/tsconfig.json'', name = Some ''app'', rootDir = None \<rparr>,
            \<lparr> configPath = ''/w/lib/tsconfig.json'', name = Some ''lib'', rootDir = None \<rparr>]
   \<and> bucketOf ''/w/app/tsconfig.json'' ''/w/app/a.ts''
     (run [Start \<lparr> existsSync = (\<lambda>p. True), initialBuild = (\<lambda>c. []) \<rparr>,
           Report \<lparr> configPath = ''/w/app/tsconfig.json'', name = Some ''app'', rootDir = None \<rparr>
             (ReportDiagnostic
                \<lparr> ts_file = Some \<lparr> fileName = ''/w/app/a.ts'',
                      getLineAndCharacterOfPosition = (\<lambda>p. \<lparr> lc_line = 1, lc_character = 4 \<rparr>) \<rparr>,
                  ts_start = Some 20, ts_length = Some 1, ts_category = 0, ts_code = 2322,
                  ts_messageText = ''first'' \<rparr> 1),
           Report \<lparr> configPath = ''/w/app/tsconfig.json'', name = Some ''app'', rootDir = None \<rparr>
             (ReportDiagnostic
                \<lparr> ts_file = Some \<lparr> fileName = ''/w/app/a.ts'',
                      getLineAndCharacterOfPosition = (\<lambda>p. \<lparr> lc_line = 4, lc_character = 2 \<rparr>) \<rparr>,
                  ts_start = Some 61, ts_length = Some 1, ts_category = 1, ts_code = 6133,
                  ts_messageText = ''second'' \<rparr> 2)]
        (newTypeScriptWatchManager
           [\<lparr> configPath = ''/w/app/tsconfig.json'', name = Some ''app'', rootDir = None \<rparr>,
            \<lparr> configPath = ''/w/lib/tsconfig.json'', name = Some ''lib'', rootDir = None \<rparr>] 100))
   = Some [\<lparr> fileD = ''/w/app/a.ts'', line = 2, column = 5, category = Error, code = 2322,
             message = ''first'', messageText = ''first'', startD = Some 20, lengthD = Some 1 \<rparr>,
           \<lparr> fileD = ''/w/app/a.ts'', line = 5, column = 3, category = Warning, code = 6133,
             message = ''second'', messageText = ''second'', startD = Some 61, lengthD = Some 1 \<rparr>]
   \<and> cachedFor ''/w/app/tsconfig.json'' ''/w/app/a.ts''
     (run [Start \<lparr> existsSync = (\<lambda>p. True), initialBuild = (\<lambda>c. []) \<rparr>,
           Report \<lparr> configPath = ''/w/app/tsconfig.json'', name = Some ''app'', rootDir = None \<rparr>
             (ReportDiagnostic
                \<lparr> ts_file = Some \<lparr> fileName = ''/w/app/a.ts'',
                      getLineAndCharacterOfPosition = (\<lambda>p. \<lparr> lc_line = 1, lc_character = 4 \<rparr>) \<rparr>,
                  ts_start = Some 20, ts_length = Some 1, ts_category = 0, ts_code = 2322,
                  ts_messageText = ''first'' \<rparr> 1),
           Report \<lparr> configPath = ''/w/app/tsconfig.json'', name = Some ''app'', rootDir = None \<rparr>
             (ReportDiagnostic
                \<lparr> ts_file = Some \<lparr> fileName = ''/w/app/a.ts'',
                      getLineAndCharacterOfPosition = (\<lambda>p. \<lparr> lc_line = 4, lc_character = 2 \<rparr>) \<rparr>,
                  ts_start = Some 61, ts_length = Some 1, ts_category = 1, ts_code = 6133,
                  ts_messageText = ''second'' \<rparr> 2)]
        (newTypeScriptWatchManager
           [\<lparr> configPath = ''/w/app/tsconfig.json'', name = Some ''app'', rootDir = None \<rparr>,
            \<lparr> configPath = ''/w/lib/tsconfig.json'', name = Some ''lib'', rootDir = None \<rparr>] 100))
   = Some [\<lparr> fileD = ''/w/app/a.ts'', line = 2, column = 5, category = Error, code = 2322,
             message = ''first'', messageText = ''first'', startD = Some 20, lengthD = Some 1 \<rparr>,
           \<lparr> fileD = ''/w/app/a.ts'', line = 5, column = 3, category = Warning, code = 6133,
             message = ''second'', messageText = ''second'', startD = Some 61, lengthD = Some 1 \<rparr>]"
proof -
  have u: "keysUnambiguous [\<lparr> configPath = ''/w/app/tsconfig.json'', name = Some ''app'', rootDir = None \<rparr>,
            \<lparr> configPath = ''/w/lib/tsconfig.json'', name = Some ''lib'', rootDir = None \<rparr>]"
    by (simp add: keysUnambiguous_def)
  have b: "bucketOf ''/w/app/tsconfig.json'' ''/w/app/a.ts''
     (run [Start \<lparr> existsSync = (\<lambda>p. True), initialBuild = (\<lambda>c. []) \<rparr>,
           Report \<lparr> configPath = ''/w/app/tsconfig.json'', name = Some ''app'', rootDir = None \<rparr>
             (ReportDiagnostic
                \<lparr> ts_file = Some \<lparr> fileName = ''/w/app/a.ts'',
                      getLineAndCharacterOfPosition = (\<lambda>p. \<lparr> lc_line = 1, lc_character = 4 \<rparr>) \<rparr>,
                  ts_start = Some 20, ts_length = Some 1, ts_category = 0, ts_code = 2322,
                  ts_messageText = ''first'' \<rparr> 1),
           Report \<lparr> configPath = ''/w/app/tsconfig.json'', name = Some ''app'', rootDir = None \<rparr>
             (ReportDiagnostic
                \<lparr> ts_file = Some \<lparr> fileName = ''/w/app/a.ts'',
                      getLineAndCharacterOfPosition = (\<lambda>p. \<lparr> lc_line = 4, lc_character = 2 \<rparr>) \<rparr>,
                  ts_start = Some 61, ts_length = Some 1, ts_category = 1, ts_code = 6133,
                  ts_messageText = ''second'' \<rparr> 2)]
        (newTypeScriptWatchManager
           [\<lparr> configPath = ''/w/app/tsconfig.json'', name = Some ''app'', rootDir = None \<rparr>,
            \<lparr> configPath = ''/w/lib/tsconfig.json'', name = Some ''lib'', rootDir = None \<rparr>] 100))
   = Some [\<lparr> fileD = ''/w/app/a.ts'', line = 2, column = 5, category = Error, code = 2322,
             message = ''first'', messageText = ''first'', startD = Some 20, lengthD = Some 1 \<rparr>,
           \<lparr> fileD = ''/w/app/a.ts'', line = 5, column = 3, category = Warning, code = 6133,
             message = ''second'', messageText = ''second'', startD = Some 61, lengthD = Some 1 \<rparr>]"
    by (simp add: manager_eval)
  obtain ds where c: "cachedFor ''/w/app/tsconfig.json'' ''/w/app/a.ts''
     (run [Start \<lparr> existsSync = (\<lambda>p. True), initialBuild = (\<lambda>c. []) \<rparr>,
           Report \<lparr> configPath = ''/w/app/tsconfig.json'', name = Some ''app'', rootDir = None \<rparr>
             (ReportDiagnostic
                \<lparr> ts_file = Some \<lparr> fileName = ''/w/app/a.ts'',
                      getLineAndCharacterOfPosition = (\<lambda>p. \<lparr> lc_line = 1, lc_character = 4 \<rparr>) \<rparr>,
                  ts_start = Some 20, ts_length = Some 1, ts_category = 0, ts_code = 2322,
                  ts_messageText = ''first'' \<rparr> 1),
           Report \<lparr> configPath = ''/w/app/tsconfig.json'', name = Some ''app'', rootDir = None \<rparr>
             (ReportDiagnostic
                \<lparr> ts_file = Some \<lparr> fileName = ''/w/app/a.ts'',
                      getLineAndCharacterOfPosition = (\<lambda>p. \<lparr> lc_line = 4, lc_character = 2 \<rparr>) \<rparr>,
                  ts_start = Some 61, ts_length = Some 1, ts_category = 1, ts_code = 6133,
                  ts_messageText = ''second'' \<rparr> 2)]
        (newTypeScriptWatchManager
           [\<lparr> configPath = ''/w/app/tsconfig.json'', name = Some ''app'', rootDir = None \<rparr>,
            \<lparr> configPath = ''/w/lib/tsconfig.json'', name = Some ''lib'', rootDir = None \<rparr>] 100)) = Some ds"
    by (simp add: manager_eval)
  have "ds = [\<lparr> fileD = ''/w/app/a.ts'', line = 2, column = 5, category = Error, code = 2322,
             message = ''first'', messageText = ''first'', startD = Some 20, lengthD = Some 1 \<rparr>,
           \<lparr> fileD = ''/w/app/a.ts'', line = 5, column = 3, category = Warning, code = 6133,
             message = ''second'', messageText = ''second'', startD = Some 61, lengthD = Some 1 \<rparr>]"
    using store_cache_agree [OF u, of "[Start \<lparr> existsSync = (\<lambda>p. True), initialBuild = (\<lambda>c. []) \<rparr>,
           Report \<lparr> configPath = ''/w/app/tsconfig.json'', name = Some ''app'', rootDir = None \<rparr>
             (ReportDiagnostic
                \<lparr> ts_file = Some \<lparr> fileName = ''/w/app/a.ts'',
                      getLineAndCharacterOfPosition = (\<lambda>p. \<lparr> lc_line = 1, lc_character = 4 \<rparr>) \<rparr>,
                  ts_start = Some 20, ts_length = Some 1, ts_category = 0, ts_code = 2322,
                  ts_messageText = ''first'' \<rparr> 1),
           Report \<lparr> configPath = ''/w/app/tsconfig.json'', name = Some ''app'', rootDir = None \<rparr>
             (ReportDiagnostic
                \<lparr> ts_file = Some \<lparr> fileName = ''/w/app/a.ts'',
                      getLineAndCharacterOfPosition = (\<lambda>p. \<lparr> lc_line = 4, lc_character = 2 \<rparr>) \<rparr>,
                  ts_start = Some 61, ts_length = Some 1, ts_category = 1, ts_code = 6133,
                  ts_messageText = ''second'' \<rparr> 2)]" 100] b c
    by blast
  then show ?thesis using u b c by simp
qed

text \<open>
  C4 as stated fails when the key of one project and file is also the key of another:
  with the configuration paths \<open>/p/a.json\<close> and \<open>/p/a.json:b/c.json\<close>, the file
  \<open>b/c.json:/x.ts\<close> of the first and the file \<open>/x.ts\<close> of the second share the key
  \<open>/p/a.json:b/c.json:/x.ts\<close>. After one report for each, the store's bucket of the
  first holds its own diagnostic, the cache under its key the diagnostic of the second.
\<close>

theorem store_cache_disagree_on_colliding_keys:
  "bucketOf ''/p/a.json'' ''b/c.json:/x.ts''
     (run [Start \<lparr> existsSync = (\<lambda>p. True), initialBuild = (\<lambda>c. []) \<rparr>,
           Report \<lparr> configPath = ''/p/a.json'', name = Some ''one'', rootDir = None \<rparr>
             (ReportDiagnostic
                \<lparr> ts_file = Some \<lparr> fileName = ''b/c.json:/x.ts'',
                      getLineAndCharacterOfPosition = (\<lambda>p. \<lparr> lc_line = 1, lc_character = 1 \<rparr>) \<rparr>,
                  ts_start = Some 9, ts_length = Some 1, ts_category = 1, ts_code = 1001,
                  ts_messageText = ''first'' \<rparr> 1),
           Report \<lparr> configPath = ''/p/a.json:b/c.json'', name = Some ''two'', rootDir = None \<rparr>
             (ReportDiagnostic
                \<lparr> ts_file = Some \<lparr> fileName = ''/x.ts'',
                      getLineAndCharacterOfPosition = (\<lambda>p. \<lparr> lc_line = 1, lc_character = 1 \<rparr>) \<rparr>,
                  ts_start = Some 9, ts_length = Some 1, ts_category = 1, ts_code = 2002,
                  ts_messageText = ''second'' \<rparr> 2)]
        (newTypeScriptWatchManager
           [\<lparr> configPath = ''/p/a.json'', name = Some ''one'', rootDir = None \<rparr>,
            \<lparr> configPath = ''/p/a.json:b/c.json'', name = Some ''two'', rootDir = None \<rparr>] 100))
   = Some [\<lparr> fileD = ''b/c.json:/x.ts'', line = 2, column = 2, category = Warning, code = 1001,
             message = ''first'', messageText = ''first'', startD = Some 9, lengthD = Some 1 \<rparr>]
   \<and> cachedFor ''/p/a.json'' ''b/c.json:/x.ts''
     (run [Start \<lparr> existsSync = (\<lambda>p. True), initialBuild = (\<lambda>c. []) \<rparr>,
           Report \<lparr> configPath = ''/p/a.json'', name = Some ''one'', rootDir = None \<rparr>
             (ReportDiagnostic
                \<lparr> ts_file = Some \<lparr> fileName = ''b/c.json:/x.ts'',
                      getLineAndCharacterOfPosition = (\<lambda>p. \<lparr> lc_line = 1, lc_character = 1 \<rparr>) \<rparr>,
                  ts_start = Some 9, ts_length = Some 1, ts_category = 1, ts_code = 1001,
                  ts_messageText = ''first'' \<rparr> 1),
           Report \<lparr> configPath = ''/p/a.json:b/c.json'', name = Some ''two'', rootDir = None \<rparr>
             (ReportDiagnostic
                \<lparr> ts_file = Some \<lparr> fileName = ''/x.ts'',
                      getLineAndCharacterOfPosition = (\<lambda>p. \<lparr> lc_line = 1, lc_character = 1 \<rparr>) \<rparr>,
                  ts_start = Some 9, ts_length = Some 1, ts_category = 1, ts_code = 2002,
                  ts_messageText = ''second'' \<rparr> 2)]
        (newTypeScriptWatchManager
           [\<lparr> configPath = ''/p/a.json'', name = Some ''one'', rootDir = None \<rparr>,
            \<lparr> configPath = ''/p/a.json:b/c.json'', name = Some ''two'', rootDir = None \<rparr>] 100))
   = Some [\<lparr> fileD = ''/x.ts'', line = 2, column = 2, category = Warning, code = 2002,
             message = ''second'', messageText = ''second'', startD = Some 9, lengthD = Some 1 \<rparr>]"
  by (simp add: manager_eval)

text \<open>
  C5, with the condition on the cache made the premise. Whenever the cache holds no
  entry under the key of the path for any configured project, \<open>getFileDiagnostics\<close>
  returns an empty list, four zero totals and no cache hit. Its result does not depend on
  the store at all. For configurations whose cache keys cannot collide, a path that no
  report has ever named is such a path, in every state reachable from the construction.
\<close>

theorem getFileDiagnostics_miss_is_empty:
  "((\<forall>c \<in> set (configs s). map_of (entries (cache s)) (cacheKey (configPath c) p) = None) \<longrightarrow>
      fst (getFileDiagnostics p now s) =
        \<lparr> timestamp = now, totalErrors = 0, totalWarnings = 0, totalSuggestions = 0,
          totalMessages = 0, diagnostics = [], cacheHit = False, source = p \<rparr>)
   \<and> fst (getFileDiagnostics p now (s\<lparr> diagnosticsByConfig := st \<rparr>))
       = fst (getFileDiagnostics p now s)
   \<and> (keysUnambiguous cfgs \<and> p \<notin> set (everReported cfgs ops) \<longrightarrow>
        fst (getFileDiagnostics p now (run ops (newTypeScriptWatchManager cfgs mb))) =
          \<lparr> timestamp = now, totalErrors = 0, totalWarnings = 0, totalSuggestions = 0,
            totalMessages = 0, diagnostics = [], cacheHit = False, source = p \<rparr>)"
proof (intro conjI impI)
  assume "\<forall>c \<in> set (configs s). map_of (entries (cache s)) (cacheKey (configPath c) p) = None"
  then show "fst (getFileDiagnostics p now s) =
        \<lparr> timestamp = now, totalErrors = 0, totalWarnings = 0, totalSuggestions = 0,
          totalMessages = 0, diagnostics = [], cacheHit = False, source = p \<rparr>"
    by (intro getFileDiagnostics_all_miss) simp
next
  show "fst (getFileDiagnostics p now (s\<lparr> diagnosticsByConfig := st \<rparr>))
       = fst (getFileDiagnostics p now s)"
    by (simp add: getFileDiagnostics_def split: prod.splits)
next
  assume a: "keysUnambiguous cfgs \<and> p \<notin> set (everReported cfgs ops)"
  show "fst (getFileDiagnostics p now (run ops (newTypeScriptWatchManager cfgs mb))) =
          \<lparr> timestamp = now, totalErrors = 0, totalWarnings = 0, totalSuggestions = 0,
            totalMessages = 0, diagnostics = [], cacheHit = False, source = p \<rparr>"
  proof (rule getFileDiagnostics_all_miss)
    fix c
    assume "c \<in> set (configs (run ops (newTypeScriptWatchManager cfgs mb)))"
    then have "c \<in> set cfgs" by (simp add: newTypeScriptWatchManager_def)
    then show "map_of (entries (cache (run ops (newTypeScriptWatchManager cfgs mb))))
           (cacheKey (configPath c) p) = None"
      using a by (intro never_reported_not_cached) simp_all
  qed
qed

theorem getFileDiagnostics_miss_is_empty_witness:
  "keysUnambiguous [\<lparr> configPath = ''/w/app/tsconfig.json'', name = Some ''app'', rootDir = None \<rparr>,
            \<lparr> configPath = ''/w/lib/tsconfig.json'', name = Some ''lib'', rootDir = None \<rparr>]
   \<and> ''/w/app/b.ts'' \<notin> set (everReported
       [\<lparr> configPath = ''/w/app/tsconfig.json'', name = Some ''app'', rootDir = None \<rparr>,
            \<lparr> configPath = ''/w/lib/tsconfig.json'', name = Some ''lib'', rootDir = None \<rparr>]
       [Start \<lparr> existsSync = (\<lambda>p. True), initialBuild = (\<lambda>c. []) \<rparr>,
           Report \<lparr> configPath = ''/w/app/tsconfig.json'', name = Some ''app'', rootDir = None \<rparr>
             (ReportDiagnostic
                \<lparr> ts_file = Some \<lparr> fileName = ''/w/app/a.ts'',
                      getLineAndCharacterOfPosition = (\<lambda>p. \<lparr> lc_line = 1, lc_character = 4 \<rparr>) \<rparr>,
                  ts_start = Some 20, ts_length = Some 1, ts_category = 0, ts_code = 2322,
                  ts_messageText = ''first'' \<rparr> 1)])
   \<and> fst (getFileDiagnostics ''/w/app/b.ts'' 9
     (run [Start \<lparr> existsSync = (\<lambda>p. True), initialBuild = (\<lambda>c. []) \<rparr>,
           Report \<lparr> configPath = ''/w/app/tsconfig.json'', name = Some ''app'', rootDir = None \<rparr>
             (ReportDiagnostic
                \<lparr> ts_file = Some \<lparr> fileName = ''/w/app/a.ts'',
                      getLineAndCharacterOfPosition = (\<lambda>p. \<lparr> lc_line = 1, lc_character = 4 \<rparr>) \<rparr>,
                  ts_start = Some 20, ts_length = Some 1, ts_category = 0, ts_code = 2322,
                  ts_messageText = ''first'' \<rparr> 1)]
        (newTypeScriptWatchManager
           [\<lparr> configPath = ''/w/app/tsconfig.json'', name = Some ''app'', rootDir = None \<rparr>,
            \<lparr> configPath = ''/w/lib/tsconfig.json'', name = Some ''lib'', rootDir = None \<rparr>] 100)))
   = \<lparr> timestamp = 9, totalErrors = 0, totalWarnings = 0, totalSuggestions = 0,
       totalMessages = 0, diagnostics = [], cacheHit = False, source = ''/w/app/b.ts'' \<rparr>"
proof -
  have u: "keysUnambiguous [\<lparr> configPath = ''/w/app/tsconfig.json'', name = Some ''app'', rootDir = None \<rparr>,
            \<lparr> configPath = ''/w/lib/tsconfig.json'', name = Some ''lib'', rootDir = None \<rparr>]"
    by (simp add: keysUnambiguous_def)
  have n: "''/w/app/b.ts'' \<notin> set (everReported
       [\<lparr> configPath = ''/w/app/tsconfig.json'', name = Some ''app'', rootDir = None \<rparr>,
            \<lparr> configPath = ''/w/lib/tsconfig.json'', name = Some ''lib'', rootDir = None \<rparr>]
       [Start \<lparr> existsSync = (\<lambda>p. True), initialBuild = (\<lambda>c. []) \<rparr>,
           Report \<lparr> configPath = ''/w/app/tsconfig.json'', name = Some ''app'', rootDir = None \<rparr>
             (ReportDiagnostic
                \<lparr> ts_file = Some \<lparr> fileName = ''/w/app/a.ts'',
                      getLineAndCharacterOfPosition = (\<lambda>p. \<lparr> lc_line = 1, lc_character = 4 \<rparr>) \<rparr>,
                  ts_start = Some 20, ts_length = Some 1, ts_category = 0, ts_code = 2322,
                  ts_messageText = ''first'' \<rparr> 1)])"
    by (simp add: everReported_def convertDiagnostic_def)
  show ?thesis
    using u n getFileDiagnostics_miss_is_empty [where p = "''/w/app/b.ts''" and now = 9
        and cfgs = "[\<lparr> configPath = ''/w/app/tsconfig.json'', name = Some ''app'', rootDir = None \<rparr>,
            \<lparr> configPath = ''/w/lib/tsconfig.json'', name = Some ''lib'', rootDir = None \<rparr>]"
        and ops = "[Start \<lparr> existsSync = (\<lambda>p. True), initialBuild = (\<lambda>c. []) \<rparr>,
           Report \<lparr> configPath = ''/w/app/tsconfig.json'', name = Some ''app'', rootDir = None \<rparr>
             (ReportDiagnostic
                \<lparr> ts_file = Some \<lparr> fileName = ''/w/app/a.ts'',
                      getLineAndCharacterOfPosition = (\<lambda>p. \<lparr> lc_line = 1, lc_character = 4 \<rparr>) \<rparr>,
                  ts_start = Some 20, ts_length = Some 1, ts_category = 0, ts_code = 2322,
                  ts_messageText = ''first'' \<rparr> 1)]" and mb = 100]
    by blast
qed

text \<open>
  C5 as stated fails for a path never reported whose key collides with the key of a
  reported file of another project: the query for \<open>b/c.json:/x.ts\<close>, which no report
  names, returns the diagnostic of \<open>/x.ts\<close> with a cache hit.
\<close>

theorem getFileDiagnostics_hit_for_unreported_file:
  "''b/c.json:/x.ts'' \<notin> set (everReported
       [\<lparr> configPath = ''/p/a.json'', name = Some ''one'', rootDir = None \<rparr>,
            \<lparr> configPath = ''/p/a.json:b/c.json'', name = Some ''two'', rootDir = None \<rparr>]
       [Start \<lparr> existsSync = (\<lambda>p. True), initialBuild = (\<lambda>c. []) \<rparr>,
           Report \<lparr> configPath = ''/p/a.json:b/c.json'', name = Some ''two'', rootDir = None \<rparr>
             (ReportDiagnostic
                \<lparr> ts_file = Some \<lparr> fileName = ''/x.ts'',
                      getLineAndCharacterOfPosition = (\<lambda>p. \<lparr> lc_line = 1, lc_character = 1 \<rparr>) \<rparr>,
                  ts_start = Some 9, ts_length = Some 1, ts_category = 1, ts_code = 2002,
                  ts_messageText = ''second'' \<rparr> 2)])
   \<and> fst (getFileDiagnostics ''b/c.json:/x.ts'' 9
     (run [Start \<lparr> existsSync = (\<lambda>p. True), initialBuild = (\<lambda>c. []) \<rparr>,
           Report \<lparr> configPath = ''/p/a.json:b/c.json'', name = Some ''two'', rootDir = None \<rparr>
             (ReportDiagnostic
                \<lparr> ts_file = Some \<lparr> fileName = ''/x.ts'',
                      getLineAndCharacterOfPosition = (\<lambda>p. \<lparr> lc_line = 1, lc_character = 1 \<rparr>) \<rparr>,
                  ts_start = Some 9, ts_length = Some 1, ts_category = 1, ts_code = 2002,
                  ts_messageText = ''second'' \<rparr> 2)]
        (newTypeScriptWatchManager
           [\<lparr> configPath = ''/p/a.json'', name = Some ''one'', rootDir = None \<rparr>,
            \<lparr> configPath = ''/p/a.json:b/c.json'', name = Some ''two'', rootDir = None \<rparr>] 100)))
   = \<lparr> timestamp = 9, totalErrors = 0, totalWarnings = 1, totalSuggestions = 0,
       totalMessages = 0,
       diagnostics = [\<lparr> fileD = ''/x.ts'', line = 2, column = 2, category = Warning, code = 2002,
             message = ''second'', messageText = ''second'', startD = Some 9, lengthD = Some 1 \<rparr>],
       cacheHit = True, source = ''b/c.json:/x.ts'' \<rparr>"
  by (simp add: manager_eval everReported_def)

end
